theory Spec2Isabelle
  imports Main "HOL-Library.Multiset"
begin

unbundle bit_operations_syntax

section \<open>Errors and control flow\<close>

text \<open>
  The Python exceptions the modelled code can raise.  A function that may raise returns
  \<open>error + 'a\<close> with \<open>Inl\<close> for the exception.
\<close>

datatype error = ValueError | IndexError | AttributeError | KeyError | TypeError

text \<open>
  The outcome of a loop body that may \<open>return\<close> from the enclosing function, fall out of
  the loop with its accumulated state, or raise.
\<close>

datatype ('r, 'a) flow = Return 'r | Fall 'a | Throw error

section \<open>Tiles (\<open>types.Tile\<close>)\<close>

text \<open>
  The module creates one \<open>Tile\<close> instance for every \<open>ID_\<close> constant when it is loaded and
  forbids calling the constructor afterwards, so a tile is one of these 42 instances.
  Equality, comparison and hashing all go through \<open>tile_id\<close>.
\<close>

datatype tile =
    CHAR1 | CHAR2 | CHAR3 | CHAR4 | CHAR5 | CHAR6 | CHAR7 | CHAR8 | CHAR9
  | CIRCLE1 | CIRCLE2 | CIRCLE3 | CIRCLE4 | CIRCLE5 | CIRCLE6 | CIRCLE7 | CIRCLE8 | CIRCLE9
  | BAMBOO1 | BAMBOO2 | BAMBOO3 | BAMBOO4 | BAMBOO5 | BAMBOO6 | BAMBOO7 | BAMBOO8 | BAMBOO9
  | EAST | SOUTH | WEST | NORTH | RED | GREEN | WHITE
  | PLUM | ORCHID | BAMBOO | CHRYSANTH
  | SPRING | SUMMER | AUTUMN | WINTER

fun tile_id :: "tile \<Rightarrow> nat" where
  "tile_id CHAR1 = 0x0101" | "tile_id CHAR2 = 0x0102" | "tile_id CHAR3 = 0x0103"
| "tile_id CHAR4 = 0x0104" | "tile_id CHAR5 = 0x0105" | "tile_id CHAR6 = 0x0106"
| "tile_id CHAR7 = 0x0107" | "tile_id CHAR8 = 0x0108" | "tile_id CHAR9 = 0x0109"
| "tile_id CIRCLE1 = 0x0201" | "tile_id CIRCLE2 = 0x0202" | "tile_id CIRCLE3 = 0x0203"
| "tile_id CIRCLE4 = 0x0204" | "tile_id CIRCLE5 = 0x0205" | "tile_id CIRCLE6 = 0x0206"
| "tile_id CIRCLE7 = 0x0207" | "tile_id CIRCLE8 = 0x0208" | "tile_id CIRCLE9 = 0x0209"
| "tile_id BAMBOO1 = 0x0401" | "tile_id BAMBOO2 = 0x0402" | "tile_id BAMBOO3 = 0x0403"
| "tile_id BAMBOO4 = 0x0404" | "tile_id BAMBOO5 = 0x0405" | "tile_id BAMBOO6 = 0x0406"
| "tile_id BAMBOO7 = 0x0407" | "tile_id BAMBOO8 = 0x0408" | "tile_id BAMBOO9 = 0x0409"
| "tile_id EAST = 0x1000" | "tile_id SOUTH = 0x1002" | "tile_id WEST = 0x1004"
| "tile_id NORTH = 0x1006"
| "tile_id RED = 0x1800" | "tile_id GREEN = 0x1802" | "tile_id WHITE = 0x1804"
| "tile_id PLUM = 0x4000" | "tile_id ORCHID = 0x4002" | "tile_id BAMBOO = 0x4004"
| "tile_id CHRYSANTH = 0x4006"
| "tile_id SPRING = 0x6000" | "tile_id SUMMER = 0x6002" | "tile_id AUTUMN = 0x6004"
| "tile_id WINTER = 0x6006"

text \<open>The values of the dictionary \<open>Tile.ALL\<close>, listed by ascending \<open>tile_id\<close>.\<close>

definition ALL_tiles :: "tile list" where
  "ALL_tiles =
     [CHAR1, CHAR2, CHAR3, CHAR4, CHAR5, CHAR6, CHAR7, CHAR8, CHAR9,
      CIRCLE1, CIRCLE2, CIRCLE3, CIRCLE4, CIRCLE5, CIRCLE6, CIRCLE7, CIRCLE8, CIRCLE9,
      BAMBOO1, BAMBOO2, BAMBOO3, BAMBOO4, BAMBOO5, BAMBOO6, BAMBOO7, BAMBOO8, BAMBOO9,
      EAST, SOUTH, WEST, NORTH, RED, GREEN, WHITE,
      PLUM, ORCHID, BAMBOO, CHRYSANTH, SPRING, SUMMER, AUTUMN, WINTER]"

text \<open>\<open>Tile.ALL[i]\<close>: the dictionary lookup raises \<open>KeyError\<close> on a missing key.\<close>

definition ALL_lookup :: "nat \<Rightarrow> error + tile" where
  "ALL_lookup i =
     (case find (\<lambda>t. tile_id t = i) ALL_tiles of None \<Rightarrow> Inl KeyError | Some t \<Rightarrow> Inr t)"

abbreviation SUIT_CHAR :: nat where "SUIT_CHAR \<equiv> 0x0100"
abbreviation SUIT_CIRCLE :: nat where "SUIT_CIRCLE \<equiv> 0x0200"
abbreviation SUIT_BAMBOO :: nat where "SUIT_BAMBOO \<equiv> 0x0400"
abbreviation SUIT_WIND :: nat where "SUIT_WIND \<equiv> 0x1000"
abbreviation SUIT_DRAGON :: nat where "SUIT_DRAGON \<equiv> 0x1800"
abbreviation SUIT_FLOWER :: nat where "SUIT_FLOWER \<equiv> 0x4000"
abbreviation SUIT_SEASON :: nat where "SUIT_SEASON \<equiv> 0x6000"

abbreviation MASK_CHAR :: nat where "MASK_CHAR \<equiv> 0x0100"
abbreviation MASK_CIRCLE :: nat where "MASK_CIRCLE \<equiv> 0x0200"
abbreviation MASK_BAMBOO :: nat where "MASK_BAMBOO \<equiv> 0x0400"
abbreviation MASK_HONOR :: nat where "MASK_HONOR \<equiv> 0x1000"
abbreviation MASK_FLOWER :: nat where "MASK_FLOWER \<equiv> 0x4000"
abbreviation MASK_DRAGON :: nat where "MASK_DRAGON \<equiv> 0x0800"
abbreviation MASK_SEASON :: nat where "MASK_SEASON \<equiv> 0x2000"

text \<open>The suit computed by \<open>Tile.__init__\<close> from the masks, in the source's order.\<close>

definition suit_of_id :: "nat \<Rightarrow> error + nat" where
  "suit_of_id i =
     (if MASK_CHAR AND i \<noteq> 0 then Inr SUIT_CHAR
      else if MASK_CIRCLE AND i \<noteq> 0 then Inr SUIT_CIRCLE
      else if MASK_BAMBOO AND i \<noteq> 0 then Inr SUIT_BAMBOO
      else if MASK_HONOR AND i \<noteq> 0 then
        (if MASK_DRAGON AND i \<noteq> 0 then Inr SUIT_DRAGON else Inr SUIT_WIND)
      else if MASK_FLOWER AND i \<noteq> 0 then
        (if MASK_SEASON AND i \<noteq> 0 then Inr SUIT_SEASON else Inr SUIT_FLOWER)
      else Inl ValueError)"

definition suit :: "tile \<Rightarrow> error + nat" where
  "suit t = suit_of_id (tile_id t)"

text \<open>\<open>tile_id % 16 if tile_id < 0x1000 else None\<close>.\<close>

definition rank :: "tile \<Rightarrow> nat option" where
  "rank t = (if tile_id t < 0x1000 then Some (tile_id t mod 16) else None)"

definition is_char :: "tile \<Rightarrow> bool" where
  "is_char t = (suit t = Inr SUIT_CHAR)"

definition is_circle :: "tile \<Rightarrow> bool" where
  "is_circle t = (suit t = Inr SUIT_CIRCLE)"

definition is_bamboo :: "tile \<Rightarrow> bool" where
  "is_bamboo t = (suit t = Inr SUIT_BAMBOO)"

definition is_honor :: "tile \<Rightarrow> bool" where
  "is_honor t = (suit t = Inr SUIT_WIND \<or> suit t = Inr SUIT_DRAGON)"

definition is_wind :: "tile \<Rightarrow> bool" where
  "is_wind t = (suit t = Inr SUIT_WIND)"

definition is_dragon :: "tile \<Rightarrow> bool" where
  "is_dragon t = (suit t = Inr SUIT_DRAGON)"

definition is_general_flower :: "tile \<Rightarrow> bool" where
  "is_general_flower t = (suit t = Inr SUIT_FLOWER \<or> suit t = Inr SUIT_SEASON)"

text \<open>\<open>Tile.__cmp__\<close> compares the identifiers, and so do sorting and \<open>bisect\<close>.\<close>

instantiation tile :: linorder
begin

definition less_eq_tile :: "tile \<Rightarrow> tile \<Rightarrow> bool" where
  "less_eq_tile a b = (tile_id a \<le> tile_id b)"

definition less_tile :: "tile \<Rightarrow> tile \<Rightarrow> bool" where
  "less_tile a b = (tile_id a < tile_id b)"

instance
proof
  fix x y z :: tile
  show "(x < y) = (x \<le> y \<and> \<not> y \<le> x)"
    by (auto simp: less_eq_tile_def less_tile_def)
  show "x \<le> x"
    by (simp add: less_eq_tile_def)
  show "x \<le> y \<Longrightarrow> y \<le> z \<Longrightarrow> x \<le> z"
    by (simp add: less_eq_tile_def)
  show "x \<le> y \<or> y \<le> x"
    by (auto simp: less_eq_tile_def)
  have inv: "find (\<lambda>t. tile_id t = tile_id u) ALL_tiles = Some u" for u
    by (cases u) (simp_all add: ALL_tiles_def)
  show "x \<le> y \<Longrightarrow> y \<le> x \<Longrightarrow> x = y"
  proof -
    assume "x \<le> y" and "y \<le> x"
    then have e: "tile_id x = tile_id y"
      by (simp add: less_eq_tile_def)
    have "Some x = find (\<lambda>t. tile_id t = tile_id x) ALL_tiles"
      by (rule inv [symmetric])
    also have "\<dots> = find (\<lambda>t. tile_id t = tile_id y) ALL_tiles"
      by (simp only: e)
    also have "\<dots> = Some y"
      by (rule inv)
    finally show "x = y" by simp
  qed
qed

end

section \<open>Binary search (\<open>bisect\<close> and \<open>utils.index\<close>)\<close>

text \<open>
  The loops of the standard \<open>bisect\<close> module, with \<open>lo = 0\<close> and \<open>hi = len(a)\<close>.
  \<open>mid < hi \<le> len(a)\<close>, so every read is in range.
\<close>

function bisect_left_loop :: "tile list \<Rightarrow> tile \<Rightarrow> nat \<Rightarrow> nat \<Rightarrow> nat" where
  "bisect_left_loop a x lo hi =
     (if lo < hi then
        (let mid = (lo + hi) div 2 in
         if a ! mid < x then bisect_left_loop a x (mid + 1) hi
         else bisect_left_loop a x lo mid)
      else lo)"
  by pat_completeness auto
termination
  by (relation "measure (\<lambda>(a, x, lo, hi). hi - lo)") auto

function bisect_right_loop :: "tile list \<Rightarrow> tile \<Rightarrow> nat \<Rightarrow> nat \<Rightarrow> nat" where
  "bisect_right_loop a x lo hi =
     (if lo < hi then
        (let mid = (lo + hi) div 2 in
         if x < a ! mid then bisect_right_loop a x lo mid
         else bisect_right_loop a x (mid + 1) hi)
      else lo)"
  by pat_completeness auto
termination
  by (relation "measure (\<lambda>(a, x, lo, hi). hi - lo)") auto

definition bisect_left :: "tile list \<Rightarrow> tile \<Rightarrow> nat" where
  "bisect_left a x = bisect_left_loop a x 0 (length a)"

definition bisect_right :: "tile list \<Rightarrow> tile \<Rightarrow> nat" where
  "bisect_right a x = bisect_right_loop a x 0 (length a)"

text \<open>
  \<open>bisect.insort\<close> is the module's alias of \<open>insort_right\<close>:
  \<open>a.insert(bisect_right(a, x), x)\<close>.
\<close>

definition insort_right :: "tile list \<Rightarrow> tile \<Rightarrow> tile list" where
  "insort_right a x = (let lo = bisect_right a x in take lo a @ x # drop lo a)"

text \<open>\<open>utils.index\<close>: the leftmost position of \<open>x\<close>, or \<open>-1\<close>.\<close>

definition index :: "tile list \<Rightarrow> tile \<Rightarrow> int" where
  "index a x =
     (let i = bisect_left a x in
      if i \<noteq> length a \<and> a ! i = x then int i else - 1)"

text \<open>\<open>del a[i]\<close> for an index in range.\<close>

definition del_at :: "'a list \<Rightarrow> nat \<Rightarrow> 'a list" where
  "del_at a i = take i a @ drop (Suc i) a"

section \<open>Hands (\<open>types.TileGroup\<close>, \<open>types.Hand\<close>)\<close>

datatype group_type = CHOW | PONG | KONG_EXPOSED | KONG_CONCEALED

record tile_group =
  tiles :: "tile list"
  group_type :: group_type

record hand =
  free_tiles :: "tile list"
  fixed_groups :: "tile_group list"
  flowers :: "tile list"
  last_tile :: "tile option"

text \<open>\<open>TileGroup.__init__\<close>: three or four tiles, kept sorted.\<close>

definition TileGroup :: "tile list \<Rightarrow> group_type \<Rightarrow> error + tile_group" where
  "TileGroup ts gt =
     (if length ts \<noteq> 3 \<and> length ts \<noteq> 4 then Inl ValueError
      else Inr \<lparr>tiles = sort ts, group_type = gt\<rparr>)"

text \<open>\<open>Hand.__init__\<close>: \<open>tiles or []\<close>, sorted.\<close>

definition Hand_init :: "tile list option \<Rightarrow> hand" where
  "Hand_init ts =
     \<lparr>free_tiles = sort (case ts of None \<Rightarrow> [] | Some xs \<Rightarrow> xs),
      fixed_groups = [], flowers = [], last_tile = None\<rparr>"

definition add_free_tile :: "hand \<Rightarrow> tile \<Rightarrow> hand" where
  "add_free_tile h tile = h\<lparr>free_tiles := insort_right (free_tiles h) tile\<rparr>"

fun add_free_tiles :: "hand \<Rightarrow> tile list \<Rightarrow> hand" where
  "add_free_tiles h [] = h"
| "add_free_tiles h (tile # rest) = add_free_tiles (add_free_tile h tile) rest"

text \<open>\<open>remove_free_tile\<close> raises before it changes the hand.\<close>

definition remove_free_tile :: "hand \<Rightarrow> tile \<Rightarrow> error + hand" where
  "remove_free_tile h tile =
     (let i = index (free_tiles h) tile in
      if i < 0 then Inl ValueError
      else Inr (h\<lparr>free_tiles := del_at (free_tiles h) (nat i)\<rparr>))"

text \<open>\<open>move_last_tile\<close> returns the tile it moved (or \<open>None\<close>) and the hand.\<close>

definition move_last_tile :: "hand \<Rightarrow> tile option \<times> hand" where
  "move_last_tile h =
     (case last_tile h of
        None \<Rightarrow> (None, h)
      | Some t \<Rightarrow> (Some t, (add_free_tile h t)\<lparr>last_tile := None\<rparr>))"

definition add_flower :: "hand \<Rightarrow> tile \<Rightarrow> hand" where
  "add_flower h tile = h\<lparr>flowers := flowers h @ [tile]\<rparr>"

definition move_flowers :: "hand \<Rightarrow> hand" where
  "move_flowers h =
     (let h1 = h\<lparr>flowers := flowers h @ filter is_general_flower (free_tiles h)\<rparr>;
          h2 = h1\<lparr>free_tiles := filter (\<lambda>x. \<not> is_general_flower x) (free_tiles h1)\<rparr>
      in case last_tile h2 of
           None \<Rightarrow> h2
         | Some t \<Rightarrow>
             if is_general_flower t then (add_flower h2 t)\<lparr>last_tile := None\<rparr> else h2)"

text \<open>
  \<open>discard(tile=None)\<close>: \<open>tile or self.last_tile\<close>; without an argument the tile is the last
  tile itself, so the first branch is taken.
\<close>

definition discard :: "hand \<Rightarrow> tile option \<Rightarrow> error + hand" where
  "discard h tile_arg =
     (case tile_arg of
        None \<Rightarrow> Inr (h\<lparr>last_tile := None\<rparr>)
      | Some tile \<Rightarrow>
          if last_tile h = Some tile then Inr (h\<lparr>last_tile := None\<rparr>)
          else
            (case remove_free_tile h tile of
               Inl e \<Rightarrow> Inl e
             | Inr h' \<Rightarrow> Inr (snd (move_last_tile h'))))"

text \<open>
  The loop of \<open>_meld\<close> deletes the given tiles one by one; when one is missing it raises
  and leaves the tiles deleted so far removed.  The hand after the call is returned
  together with the exception, if any.
\<close>

fun remove_loop :: "hand \<Rightarrow> tile list \<Rightarrow> hand \<times> error option" where
  "remove_loop h [] = (h, None)"
| "remove_loop h (tile # rest) =
     (let idx = index (free_tiles h) tile in
      if idx < 0 then (h, Some ValueError)
      else remove_loop (h\<lparr>free_tiles := del_at (free_tiles h) (nat idx)\<rparr>) rest)"

definition meld :: "hand \<Rightarrow> tile list \<Rightarrow> tile \<Rightarrow> group_type \<Rightarrow> hand \<times> (error + tile_group)" where
  "meld h ts incoming_tile gt =
     (case remove_loop h ts of
        (h', Some e) \<Rightarrow> (h', Inl e)
      | (h', None) \<Rightarrow>
          (case TileGroup (sort (ts @ [incoming_tile])) gt of
             Inl e \<Rightarrow> (h', Inl e)
           | Inr g \<Rightarrow> (h'\<lparr>fixed_groups := fixed_groups h' @ [g]\<rparr>, Inr g)))"

definition chow :: "hand \<Rightarrow> tile list \<Rightarrow> tile \<Rightarrow> hand \<times> (error + tile_group)" where
  "chow h ts incoming_tile = meld h ts incoming_tile CHOW"

definition pong :: "hand \<Rightarrow> tile \<Rightarrow> hand \<times> (error + tile_group)" where
  "pong h incoming_tile = meld h [incoming_tile, incoming_tile] incoming_tile PONG"

definition kong_from_other :: "hand \<Rightarrow> tile \<Rightarrow> hand \<times> (error + tile_group)" where
  "kong_from_other h incoming_tile =
     meld h [incoming_tile, incoming_tile, incoming_tile] incoming_tile KONG_EXPOSED"

text \<open>\<open>_find_pong_group\<close>: the position of the first melded triplet of the tile.\<close>

definition find_pong_group :: "hand \<Rightarrow> tile \<Rightarrow> nat option" where
  "find_pong_group h tile =
     find (\<lambda>k. group_type (fixed_groups h ! k) = PONG
               \<and> tiles (fixed_groups h ! k) = [tile, tile, tile])
          [0..<length (fixed_groups h)]"

definition kong_from_self :: "hand \<Rightarrow> hand \<times> (error + tile_group)" where
  "kong_from_self h =
     (case last_tile h of
        None \<Rightarrow> (h, Inl ValueError)
      | Some lt \<Rightarrow>
          (case find_pong_group h lt of
             Some k \<Rightarrow>
               (let g = (fixed_groups h ! k)
                          \<lparr>tiles := tiles (fixed_groups h ! k) @ [lt],
                           group_type := KONG_EXPOSED\<rparr>
                in (h\<lparr>fixed_groups := (fixed_groups h)[k := g], last_tile := None\<rparr>, Inr g))
           | None \<Rightarrow>
               (case meld h [lt, lt, lt] lt KONG_CONCEALED of
                  (h', Inl e) \<Rightarrow> (h', Inl e)
                | (h', Inr g) \<Rightarrow> (h'\<lparr>last_tile := None\<rparr>, Inr g))))"

subsection \<open>Queries\<close>

text \<open>The \<open>while\<close> loop of \<open>Hand.count\<close>.\<close>

function count_run :: "tile list \<Rightarrow> tile \<Rightarrow> nat \<Rightarrow> nat \<Rightarrow> nat" where
  "count_run a tile idx cnt =
     (if idx < length a \<and> a ! idx = tile then count_run a tile (idx + 1) (cnt + 1) else cnt)"
  by pat_completeness auto
termination
  by (relation "measure (\<lambda>(a, tile, idx, cnt). length a - idx)") auto

text \<open>
  \<open>Hand.count(tile, last_tile, free_tiles, fixed_groups)\<close> with its keyword flags
  (defaults \<open>True, True, False\<close>).
\<close>

definition hand_count :: "hand \<Rightarrow> tile \<Rightarrow> bool \<Rightarrow> bool \<Rightarrow> bool \<Rightarrow> nat" where
  "hand_count h tile use_last use_free use_fixed =
     (let c1 = (if use_last \<and> last_tile h = Some tile then 1 else 0);
          c2 = (if use_free then
                  (let idx = index (free_tiles h) tile in
                   if 0 \<le> idx then count_run (free_tiles h) tile (nat idx) c1 else c1)
                else c1)
      in if use_fixed
           then c2 + sum_list (map (\<lambda>g. count_list (tiles g) tile) (fixed_groups h))
           else c2)"

text \<open>
  \<open>Hand.contains(tile, last_tile, free_tiles, fixed_groups, flowers)\<close> with its keyword
  flags (defaults \<open>True, True, False, False\<close>).
\<close>

definition contains :: "hand \<Rightarrow> tile \<Rightarrow> bool \<Rightarrow> bool \<Rightarrow> bool \<Rightarrow> bool \<Rightarrow> bool" where
  "contains h tile use_last use_free use_fixed use_flowers =
     (if use_last \<and> last_tile h = Some tile then True
      else if use_free \<and> 0 \<le> index (free_tiles h) tile then True
      else if use_fixed \<and> (\<exists>g \<in> set (fixed_groups h). tile \<in> set (tiles g)) then True
      else if use_flowers \<and> tile \<in> set (flowers h) then True
      else False)"

text \<open>One of the three tests of \<open>get_chow_combs\<close>, with its two dictionary lookups.\<close>

definition chow_comb :: "hand \<Rightarrow> nat \<Rightarrow> nat \<Rightarrow> (tile \<times> tile) list
    \<Rightarrow> error + (tile \<times> tile) list" where
  "chow_comb h i1 i2 combs =
     (case ALL_lookup i1 of
        Inl e \<Rightarrow> Inl e
      | Inr t1 \<Rightarrow>
          (case ALL_lookup i2 of
             Inl e \<Rightarrow> Inl e
           | Inr t2 \<Rightarrow>
               if 0 \<le> index (free_tiles h) t1 \<and> 0 \<le> index (free_tiles h) t2
               then Inr (combs @ [(t1, t2)]) else Inr combs))"

definition get_chow_combs :: "hand \<Rightarrow> tile \<Rightarrow> error + (tile \<times> tile) list" where
  "get_chow_combs h incoming_tile =
     (if is_honor incoming_tile \<or> is_general_flower incoming_tile then Inr []
      else
        let num = tile_id incoming_tile mod 16;
            r1 = (if 2 < num
                  then chow_comb h (tile_id incoming_tile - 2) (tile_id incoming_tile - 1) []
                  else Inr [])
        in case r1 of
             Inl e \<Rightarrow> Inl e
           | Inr combs1 \<Rightarrow>
               (case (if 1 < num \<and> num < 9
                      then chow_comb h (tile_id incoming_tile - 1) (tile_id incoming_tile + 1)
                             combs1
                      else Inr combs1) of
                  Inl e \<Rightarrow> Inl e
                | Inr combs2 \<Rightarrow>
                    if num < 8
                    then chow_comb h (tile_id incoming_tile + 1) (tile_id incoming_tile + 2)
                           combs2
                    else Inr combs2))"

definition can_chow :: "hand \<Rightarrow> tile \<Rightarrow> error + bool" where
  "can_chow h incoming_tile =
     (case get_chow_combs h incoming_tile of Inl e \<Rightarrow> Inl e | Inr combs \<Rightarrow> Inr (combs \<noteq> []))"

definition can_pong :: "hand \<Rightarrow> tile \<Rightarrow> bool" where
  "can_pong h incoming_tile =
     (let idx = index (free_tiles h) incoming_tile in
      0 \<le> idx \<and> idx < int (length (free_tiles h)) - 1
      \<and> free_tiles h ! nat (idx + 1) = incoming_tile)"

definition can_kong :: "hand \<Rightarrow> tile \<Rightarrow> bool" where
  "can_kong h incoming_tile =
     (let idx = index (free_tiles h) incoming_tile in
      0 \<le> idx \<and> idx < int (length (free_tiles h)) - 2
      \<and> free_tiles h ! nat (idx + 1) = incoming_tile
      \<and> free_tiles h ! nat (idx + 2) = incoming_tile)"

definition can_appended_kong :: "hand \<Rightarrow> bool" where
  "can_appended_kong h =
     (case last_tile h of None \<Rightarrow> False | Some lt \<Rightarrow> find_pong_group h lt \<noteq> None)"

definition can_concealed_kong :: "hand \<Rightarrow> bool" where
  "can_concealed_kong h =
     (case last_tile h of None \<Rightarrow> False | Some lt \<Rightarrow> can_kong h lt)"

definition can_self_kong :: "hand \<Rightarrow> bool" where
  "can_self_kong h = (can_appended_kong h \<or> can_concealed_kong h)"

definition num_kongs :: "hand \<Rightarrow> nat" where
  "num_kongs h =
     length (filter (\<lambda>g. group_type g = KONG_EXPOSED \<or> group_type g = KONG_CONCEALED)
               (fixed_groups h))"

subsection \<open>The winning-hand test\<close>

text \<open>The dictionary \<open>honor_indices\<close> of \<open>_construct_hand_table\<close>.\<close>

definition honor_indices :: "tile \<Rightarrow> nat option" where
  "honor_indices =
     [EAST \<mapsto> 1, SOUTH \<mapsto> 2, WEST \<mapsto> 3, NORTH \<mapsto> 4, RED \<mapsto> 5, GREEN \<mapsto> 6, WHITE \<mapsto> 7]"

text \<open>\<open>row[i] += k\<close>.\<close>

definition add_at :: "int list \<Rightarrow> nat \<Rightarrow> int \<Rightarrow> int list" where
  "add_at row i k = row[i := row ! i + k]"

text \<open>\<open>table[i][0] += 1; table[i][j] += 1\<close>.\<close>

definition bump :: "int list list \<Rightarrow> nat \<Rightarrow> nat \<Rightarrow> int list list" where
  "bump table i j = table[i := add_at (add_at (table ! i) 0 1) j 1]"

text \<open>
  The body of the loop of \<open>_construct_hand_table\<close>.  The column of a numeric tile is
  \<open>tile_id % 16\<close>, between 1 and 9 for each of the 27 numeric tiles, so the write is in
  range; \<open>honor_indices[tile]\<close> raises \<open>KeyError\<close> on a missing key.
\<close>

definition add_to_table :: "int list list \<Rightarrow> tile \<Rightarrow> error + int list list" where
  "add_to_table table tile =
     (if is_char tile then Inr (bump table 0 (tile_id tile mod 16))
      else if is_circle tile then Inr (bump table 1 (tile_id tile mod 16))
      else if is_bamboo tile then Inr (bump table 2 (tile_id tile mod 16))
      else if is_honor tile then
        (case honor_indices tile of
           None \<Rightarrow> Inl KeyError
         | Some j \<Rightarrow> Inr (bump table 3 j))
      else Inr table)"

fun table_loop :: "int list list \<Rightarrow> tile list \<Rightarrow> error + int list list" where
  "table_loop table [] = Inr table"
| "table_loop table (tile # rest) =
     (case add_to_table table tile of
        Inl e \<Rightarrow> Inl e
      | Inr table' \<Rightarrow> table_loop table' rest)"

definition construct_hand_table :: "tile list \<Rightarrow> error + int list list" where
  "construct_hand_table ts = table_loop (replicate 4 (replicate 10 0)) ts"

text \<open>
  The search \<open>for i in xrange(1, 10): if row[i] > 0\<close> for the first tile; \<open>None\<close> stands
  for \<open>idx = -1\<close>.
\<close>

definition first_tile :: "int list \<Rightarrow> nat option" where
  "first_tile row = find (\<lambda>i. 0 < row ! i) [1..<10]"

text \<open>
  \<open>_can_group_as_3\<close> (its argument \<open>is_honor\<close> is written \<open>honor\<close>) changes the row in place and restores it after the recursive call;
  the model returns the row together with the result.  A row is one of the lists of ten
  counters that \<open>_construct_hand_table\<close> builds; any other list is answered with
  \<open>IndexError\<close>.  When no tile is found (\<open>idx = -1\<close>), \<open>row[-1]\<close> is \<open>row[9]\<close>, which is not
  positive, and \<open>row[idx + 2]\<close> is \<open>row[1]\<close>, which is not positive either, so both tests
  fail and the method returns \<open>False\<close>.
\<close>

function can_group_as_3 :: "int list \<Rightarrow> bool \<Rightarrow> error + (bool \<times> int list)" where
  "can_group_as_3 row honor =
     (if length row \<noteq> 10 then Inl IndexError
      else if row ! 0 = 0 then Inr (True, row)
      else
        (case first_tile row of
           None \<Rightarrow> Inr (False, row)
         | Some idx \<Rightarrow>
             if 3 \<le> row ! idx then
               (case can_group_as_3 (add_at (add_at row idx (- 3)) 0 (- 3)) honor of
                  Inl e \<Rightarrow> Inl e
                | Inr (result, row') \<Rightarrow> Inr (result, add_at (add_at row' idx 3) 0 3))
             else if \<not> honor \<and> idx < 8 \<and> 0 < row ! (idx + 1) \<and> 0 < row ! (idx + 2) then
               (case can_group_as_3
                       (add_at (add_at (add_at (add_at row idx (- 1)) (idx + 1) (- 1))
                          (idx + 2) (- 1)) 0 (- 3)) honor of
                  Inl e \<Rightarrow> Inl e
                | Inr (result, row') \<Rightarrow>
                    Inr (result,
                         add_at (add_at (add_at (add_at row' idx 1) (idx + 1) 1)
                           (idx + 2) 1) 0 3))
             else Inr (False, row)))"
  by pat_completeness auto

text \<open>Termination: every recursive call removes a tile from the columns 1 to 9.\<close>

definition weight :: "int list \<Rightarrow> nat" where
  "weight row = (\<Sum>i = 1..<10. nat (row ! i))"

lemma first_tile_Some:
  "first_tile row = Some idx \<Longrightarrow>
     1 \<le> idx \<and> idx < 10 \<and> 0 < row ! idx \<and> (\<forall>j. 1 \<le> j \<and> j < idx \<longrightarrow> row ! j \<le> 0)"
  unfolding first_tile_def find_Some_iff
  apply (elim exE conjE)
  apply (simp add: nth_upt)
  apply clarify
  subgoal for i j
    apply (drule spec [of _ "j - 1"])
    apply (simp add: nth_upt)
    apply (simp add: not_less)
    done
  done

lemma first_tile_None:
  "first_tile row = None \<Longrightarrow> 1 \<le> j \<Longrightarrow> j < 10 \<Longrightarrow> row ! j \<le> 0"
  unfolding first_tile_def find_None_iff by (auto simp: not_less)

lemma nth_add_at:
  "i < length row \<Longrightarrow> add_at row i k ! j = (if j = i then row ! i + k else row ! j)"
  by (simp add: add_at_def)

lemma length_add_at [simp]: "length (add_at row i k) = length row"
  by (simp add: add_at_def)

lemma weight_less:
  assumes "\<And>i. 1 \<le> i \<Longrightarrow> i < 10 \<Longrightarrow> nat (row' ! i) \<le> nat (row ! i)"
    and "1 \<le> a" "a < 10" "nat (row' ! a) < nat (row ! a)"
  shows "weight row' < weight row"
  unfolding weight_def
  by (rule sum_strict_mono_ex1) (use assms in auto)

termination can_group_as_3
proof (relation "measure (\<lambda>(row, h). weight row)", goal_cases)
  case 1
  show ?case by simp
next
  case (2 row honor idx)
  then have f: "1 \<le> idx" "idx < 10" "0 < row ! idx" and l: "length row = 10"
    using first_tile_Some [of row idx] by auto
  have "weight (add_at (add_at row idx (- 3)) 0 (- 3)) < weight row"
    by (rule weight_less [where a = idx]) (use f l 2 in \<open>auto simp: nth_add_at\<close>)
  then show ?case by simp
next
  case (3 row honor idx)
  then have f: "1 \<le> idx" "idx < 10" "0 < row ! idx" and l: "length row = 10"
    using first_tile_Some [of row idx] by auto
  have "weight (add_at (add_at (add_at (add_at row idx (- 1)) (idx + 1) (- 1))
                          (idx + 2) (- 1)) 0 (- 3)) < weight row"
    by (rule weight_less [where a = idx]) (use f l 3 in \<open>auto simp: nth_add_at\<close>)
  then show ?case by simp
qed

text \<open>
  \<open>_can_group_as_pair_and_3\<close>: the loop over the columns tries every pair.  On success
  it returns without restoring the row; on failure the pair is put back.
\<close>

fun pair_loop :: "int list \<Rightarrow> bool \<Rightarrow> nat list \<Rightarrow> error + (bool \<times> int list)" where
  "pair_loop row honor [] = Inr (False, row)"
| "pair_loop row honor (i # is) =
     (if length row \<le> i then Inl IndexError
      else if 1 < row ! i then
        (case can_group_as_3 (add_at (add_at row i (- 2)) 0 (- 2)) honor of
           Inl e \<Rightarrow> Inl e
         | Inr (result, row') \<Rightarrow>
             if result then Inr (True, row')
             else pair_loop (add_at (add_at row' i 2) 0 2) honor is)
      else pair_loop row honor is)"

definition can_group_as_pair_and_3 :: "int list \<Rightarrow> bool \<Rightarrow> error + (bool \<times> int list)" where
  "can_group_as_pair_and_3 row honor = pair_loop row honor [1..<10]"

text \<open>The first loop of \<open>can_win\<close> counts the rows by \<open>row[0] % 3\<close>.\<close>

fun remainder_loop :: "int list list \<Rightarrow> nat \<Rightarrow> nat \<Rightarrow> nat \<times> nat" where
  "remainder_loop [] num_3x num_3x_plus_2 = (num_3x, num_3x_plus_2)"
| "remainder_loop (row # rows) num_3x num_3x_plus_2 =
     (let remainder = row ! 0 mod 3 in
      if remainder = 0 then remainder_loop rows (num_3x + 1) num_3x_plus_2
      else if remainder = 2 then remainder_loop rows num_3x (num_3x_plus_2 + 1)
      else remainder_loop rows num_3x num_3x_plus_2)"

text \<open>
  The second loop of \<open>can_win\<close>, over the rows 0 to 3: \<open>row\<close> is \<open>table[i]\<close> itself, so
  the changes a call leaves in the row are changes of the table.
\<close>

fun group_loop :: "int list list \<Rightarrow> nat list \<Rightarrow> error + bool" where
  "group_loop table [] = Inr True"
| "group_loop table (i # is) =
     (let honor = (i = 3); row = table ! i in
      case (if row ! 0 mod 3 = 0 then can_group_as_3 row honor
            else can_group_as_pair_and_3 row honor) of
        Inl e \<Rightarrow> Inl e
      | Inr (result, row') \<Rightarrow>
          if \<not> result then Inr False else group_loop (table[i := row']) is)"

text \<open>
  \<open>Hand.can_win(incoming_tile=None)\<close>: \<open>incoming_tile or self.last_tile\<close> is inserted
  into a copy of the free tiles.
\<close>

definition can_win :: "hand \<Rightarrow> tile option \<Rightarrow> error + bool" where
  "can_win h incoming_tile =
     (let incoming = (case incoming_tile of Some t \<Rightarrow> Some t | None \<Rightarrow> last_tile h);
          ts = (case incoming of
                  Some t \<Rightarrow> insort_right (free_tiles h) t
                | None \<Rightarrow> free_tiles h)
      in case construct_hand_table ts of
           Inl e \<Rightarrow> Inl e
         | Inr table \<Rightarrow>
             (case remainder_loop table 0 0 of
                (num_3x, num_3x_plus_2) \<Rightarrow>
                  if num_3x \<noteq> 3 \<or> num_3x_plus_2 \<noteq> 1 then Inr False
                  else group_loop table [0..<4]))"

text \<open>
  \<open>ready\<close> and \<open>waiting_tiles\<close> iterate over \<open>Tile.ALL.itervalues()\<close>, whose order is
  the dictionary's; the order is a parameter of the loops.
\<close>

fun ready_loop :: "hand \<Rightarrow> tile list \<Rightarrow> error + bool" where
  "ready_loop h [] = Inr False"
| "ready_loop h (tile # rest) =
     (case can_win h (Some tile) of
        Inl e \<Rightarrow> Inl e
      | Inr b \<Rightarrow> if b then Inr True else ready_loop h rest)"

fun waiting_loop :: "hand \<Rightarrow> tile list \<Rightarrow> tile list \<Rightarrow> error + tile list" where
  "waiting_loop h [] acc = Inr acc"
| "waiting_loop h (tile # rest) acc =
     (case can_win h (Some tile) of
        Inl e \<Rightarrow> Inl e
      | Inr b \<Rightarrow> waiting_loop h rest (if b then insort_right acc tile else acc))"

definition ready_in :: "tile list \<Rightarrow> hand \<Rightarrow> error + bool" where
  "ready_in itervalues h = ready_loop h itervalues"

definition waiting_tiles_in :: "tile list \<Rightarrow> hand \<Rightarrow> error + tile list" where
  "waiting_tiles_in itervalues h = waiting_loop h itervalues []"

definition ready :: "hand \<Rightarrow> error + bool" where
  "ready h = ready_in ALL_tiles h"

definition waiting_tiles :: "hand \<Rightarrow> error + tile list" where
  "waiting_tiles h = waiting_tiles_in ALL_tiles h"

section \<open>Decision arbitration (\<open>algo.select_melders\<close>)\<close>

text \<open>
  A seat's viable decisions are \<open>None\<close> or a list of strings; a seat's decision is
  \<open>None\<close> or a string.  The result is \<open>None\<close> or a list of pairs (seat, decision) where
  the decision \<open>None\<close> marks a seat that still has to decide.
\<close>

type_synonym viable = "string list option"
type_synonym melder = "nat \<times> string option"

text \<open>\<open>player_viable and d in player_viable\<close>: \<open>None\<close> and the empty list are falsy.\<close>

definition viable_has :: "string \<Rightarrow> viable \<Rightarrow> bool" where
  "viable_has d player_viable =
     (case player_viable of None \<Rightarrow> False | Some vs \<Rightarrow> vs \<noteq> [] \<and> d \<in> set vs)"

text \<open>
  \<open>player_decision not in player_viable\<close>, evaluated only where \<open>player_viable\<close> is a
  non-empty list: \<open>None\<close> is never a member of a list of strings.
\<close>

definition not_in_viable :: "string option \<Rightarrow> viable \<Rightarrow> bool" where
  "not_in_viable player_decision player_viable =
     (case player_decision of
        None \<Rightarrow> True
      | Some s \<Rightarrow> (case player_viable of None \<Rightarrow> True | Some vs \<Rightarrow> s \<notin> set vs))"

text \<open>\<open>(base_offset + i) % num_players\<close> on Python integers.\<close>

definition rot_idx :: "int \<Rightarrow> nat \<Rightarrow> nat \<Rightarrow> nat" where
  "rot_idx base_offset i num_players = nat ((base_offset + int i) mod int num_players)"

text \<open>
  The first loop: every seat that can win and chose \<open>win\<close> is appended to \<open>result\<close>; a
  seat that can win and has no valid decision yet returns at once.
  \<open>viable_decisions[player_idx]\<close> raises \<open>IndexError\<close> out of range.
\<close>

fun win_loop :: "viable list \<Rightarrow> string option list \<Rightarrow> int \<Rightarrow> nat \<Rightarrow> nat list
    \<Rightarrow> melder list \<Rightarrow> (melder list, melder list) flow" where
  "win_loop V D b n [] result = Fall result"
| "win_loop V D b n (i # is) result =
     (let player_idx = rot_idx b i n in
      if length V \<le> player_idx then Throw IndexError
      else
        let player_viable = V ! player_idx in
        if viable_has ''win'' player_viable then
          (let player_decision = D ! player_idx in
           if player_decision = Some ''win''
             then win_loop V D b n is (result @ [(player_idx, Some ''win'')])
           else if not_in_viable player_decision player_viable
             then Return [(player_idx, None)]
           else win_loop V D b n is result)
        else win_loop V D b n is result)"

text \<open>The inner loop over the seats for one of \<open>kong\<close>, \<open>pong\<close>, \<open>chow\<close>.\<close>

fun meld_loop :: "viable list \<Rightarrow> string option list \<Rightarrow> int \<Rightarrow> nat \<Rightarrow> string \<Rightarrow> nat list
    \<Rightarrow> (melder list, unit) flow" where
  "meld_loop V D b n decision [] = Fall ()"
| "meld_loop V D b n decision (i # is) =
     (let player_idx = rot_idx b i n in
      if length V \<le> player_idx then Throw IndexError
      else
        let player_viable = V ! player_idx in
        if viable_has decision player_viable then
          (let player_decision = D ! player_idx in
           if not_in_viable player_decision player_viable
             then Return [(player_idx, None)]
           else if player_decision = Some decision
             then Return [(player_idx, Some decision)]
           else meld_loop V D b n decision is)
        else meld_loop V D b n decision is)"

text \<open>The outer loop \<open>for decision in ('kong', 'pong', 'chow')\<close>.\<close>

fun decision_loop :: "viable list \<Rightarrow> string option list \<Rightarrow> int \<Rightarrow> nat \<Rightarrow> string list
    \<Rightarrow> (melder list, unit) flow" where
  "decision_loop V D b n [] = Fall ()"
| "decision_loop V D b n (decision # ds) =
     (case meld_loop V D b n decision [0..<n] of
        Return r \<Rightarrow> Return r
      | Throw e \<Rightarrow> Throw e
      | Fall u \<Rightarrow> decision_loop V D b n ds)"

definition select_melders :: "viable list \<Rightarrow> string option list \<Rightarrow> int
    \<Rightarrow> error + melder list option" where
  "select_melders viable_decisions player_decisions base_offset =
     (let num_players = length player_decisions in
      case win_loop viable_decisions player_decisions base_offset num_players
             [0..<num_players] [] of
        Throw e \<Rightarrow> Inl e
      | Return r \<Rightarrow> Inr (Some r)
      | Fall result \<Rightarrow>
          if result \<noteq> [] then Inr (Some result)
          else
            (case decision_loop viable_decisions player_decisions base_offset num_players
                    [''kong'', ''pong'', ''chow''] of
               Throw e \<Rightarrow> Inl e
             | Return r \<Rightarrow> Inr (Some r)
             | Fall u \<Rightarrow> Inr None))"

section \<open>Players and the game context (\<open>types.Player\<close>, \<open>types.GameContext\<close>)\<close>

text \<open>
  A player's decision is a string (\<open>'win'\<close>, \<open>'skip'\<close>, ...), a tile to discard, or a pair
  of tiles to chow with.
\<close>

datatype decision = DStr string | DTile tile | DComb "tile \<times> tile"

text \<open>
  The \<open>extra\<close> dictionaries map strings to values of the kinds the handlers store:
  flags, seat indices, strings, lists of strings, lists of tiles, lists of seats, the
  result of \<open>select_melders\<close> and lists of chow combinations.  \<open>dict.get\<close> answers \<open>None\<close>
  for a missing key.
\<close>

datatype val =
    VNone | VBool bool | VIdx nat | VStr string | VStrs "string list" | VTiles "tile list"
  | VSeats "nat list" | VMelders "melder list" | VCombs "(tile \<times> tile) list"

type_synonym dict = "string \<Rightarrow> val option"

definition dget :: "dict \<Rightarrow> string \<Rightarrow> val" where
  "dget d k = (case d k of None \<Rightarrow> VNone | Some v \<Rightarrow> v)"

text \<open>Python truthiness of a stored value.\<close>

fun truthy :: "val \<Rightarrow> bool" where
  "truthy VNone = False"
| "truthy (VBool b) = b"
| "truthy (VIdx n) = (n \<noteq> 0)"
| "truthy (VStr s) = (s \<noteq> [])"
| "truthy (VStrs l) = (l \<noteq> [])"
| "truthy (VTiles l) = (l \<noteq> [])"
| "truthy (VSeats l) = (l \<noteq> [])"
| "truthy (VMelders l) = (l \<noteq> [])"
| "truthy (VCombs l) = (l \<noteq> [])"

text \<open>
  The readers of the keys whose values have one kind: a list of strings under
  \<open>'viable_decisions'\<close>, a seat under \<open>'flower_winner'\<close> and \<open>'flower_chucker'\<close>, lists of
  tiles under \<open>'waiting_tiles'\<close> and \<open>'water'\<close>.  Any other value reads as \<open>None\<close>.
\<close>

fun strs_of :: "val \<Rightarrow> string list option" where
  "strs_of (VStrs l) = Some l"
| "strs_of v = None"

fun idx_of :: "val \<Rightarrow> nat option" where
  "idx_of (VIdx n) = Some n"
| "idx_of v = None"

text \<open>\<open>waiting_tiles and incoming_tile in waiting_tiles\<close>.\<close>

fun tile_in :: "tile \<Rightarrow> val \<Rightarrow> bool" where
  "tile_in t (VTiles l) = (t \<in> set l)"
| "tile_in t v = False"

record player =
  hand :: hand
  discarded :: "tile list"
  decision :: "decision option"
  extra :: dict

text \<open>The attributes of \<open>GameSettings\<close> that the modelled code reads, with their defaults.\<close>

record settings =
  declarable :: bool
  max_dealer_defended :: int
  multi_winners :: bool
  tie_on_4_kongs :: bool
  tie_on_4_waiting :: bool
  tie_on_winds :: "string option"
  tie_wall :: int
  tie_wall_per_kong :: int
  water :: bool
  patterns_win :: "string list"
  patterns_win_filter :: "string list"

definition GameSettings :: settings where
  "GameSettings =
     \<lparr>declarable = True, max_dealer_defended = 999, multi_winners = False,
      tie_on_4_kongs = True, tie_on_4_waiting = False, tie_on_winds = Some ''all'',
      tie_wall = 16, tie_wall_per_kong = 1, water = True,
      patterns_win = [''seven-flowers'', ''eight-flowers''], patterns_win_filter = []\<rparr>"

text \<open>
  The context.  \<open>players\<close> is the list of the four players that \<open>GameContext.__init__\<close>
  creates; nothing changes its length.  The wall is \<open>None\<close> or the list of its tiles,
  drawn from the end.  Seats are natural numbers.
\<close>

record game_context =
  state :: string
  wall :: "tile list option"
  players :: "player list"
  discarded_pool :: "tile list"
  cur_player_idx :: "nat option"
  last_player_idx :: "nat option"
  round :: int
  match :: int
  dealer :: nat
  dealer_defended :: int
  winners :: "nat list option"
  settings :: settings
  cextra :: dict

definition Player_init :: player where
  "Player_init = \<lparr>hand = Hand_init None, discarded = [], decision = None, extra = Map.empty\<rparr>"

definition GameContext_init :: "settings \<Rightarrow> game_context" where
  "GameContext_init st =
     \<lparr>state = ''start'', wall = None, players = replicate 4 Player_init,
      discarded_pool = [], cur_player_idx = Some 0, last_player_idx = None,
      round = 0, match = 0, dealer = 0, dealer_defended = 0, winners = None,
      settings = st, cextra = Map.empty\<rparr>"

text \<open>\<open>GameContext.player(offset)\<close>: the seat \<open>(cur_player_idx + offset) % 4\<close>.\<close>

definition seat_at :: "nat \<Rightarrow> int \<Rightarrow> nat" where
  "seat_at cur offset = nat ((int cur + offset) mod 4)"

definition cur_player :: "game_context \<Rightarrow> player option" where
  "cur_player c =
     (case cur_player_idx c of None \<Rightarrow> None | Some cur \<Rightarrow> Some (players c ! seat_at cur 0))"

definition last_discarded :: "game_context \<Rightarrow> tile option" where
  "last_discarded c = (if discarded_pool c \<noteq> [] then Some (last (discarded_pool c)) else None)"

definition set_turn :: "game_context \<Rightarrow> nat \<Rightarrow> game_context" where
  "set_turn c player_idx =
     c\<lparr>last_player_idx := cur_player_idx c, cur_player_idx := Some player_idx\<rparr>"

definition next_turn :: "game_context \<Rightarrow> game_context" where
  "next_turn c =
     (case cur_player_idx c of
        None \<Rightarrow> c\<lparr>cur_player_idx := Some 0, last_player_idx := None\<rparr>
      | Some cur \<Rightarrow> set_turn c (seat_at cur 1))"

text \<open>\<open>Player.reset\<close> and \<open>GameContext.reset_players\<close>.\<close>

definition Player_reset :: "player \<Rightarrow> player" where
  "Player_reset p =
     p\<lparr>hand := \<lparr>free_tiles = [], fixed_groups = [], flowers = [], last_tile = None\<rparr>,
       discarded := [], decision := None, extra := Map.empty\<rparr>"

definition reset_players :: "game_context \<Rightarrow> game_context" where
  "reset_players c = c\<lparr>players := map Player_reset (players c)\<rparr>"

text \<open>\<open>not self.winners\<close>: \<open>None\<close> and the empty list are falsy.\<close>

definition no_winners :: "game_context \<Rightarrow> bool" where
  "no_winners c = (case winners c of None \<Rightarrow> True | Some ws \<Rightarrow> ws = [])"

text \<open>
  \<open>GameContext.is_tie\<close> with its five keyword flags.  \<open>self.wall.num_tiles()\<close> raises
  \<open>AttributeError\<close> when there is no wall.
\<close>

definition first_discards :: "game_context \<Rightarrow> tile option list" where
  "first_discards c =
     map (\<lambda>p. if discarded p \<noteq> [] then Some (hd (discarded p)) else None) (players c)"

definition wind_tie :: "game_context \<Rightarrow> bool" where
  "wind_tie c =
     (let ds = first_discards c in
      if tie_on_winds (settings c) = Some ''west''
      then length (filter (\<lambda>x. x = Some WEST) ds) = 4
      else (case ds ! 0 of
              None \<Rightarrow> False
            | Some d0 \<Rightarrow> is_wind d0 \<and> ds ! 0 = ds ! 1 \<and> ds ! 1 = ds ! 2 \<and> ds ! 2 = ds ! 3))"

definition is_tie :: "game_context \<Rightarrow> bool \<Rightarrow> bool \<Rightarrow> bool \<Rightarrow> bool \<Rightarrow> bool \<Rightarrow> error + bool" where
  "is_tie c cur_state four_waiting four_kongs wall_tie four_winds =
     (if cur_state \<and> state c = ''end'' \<and> no_winners c then Inr True
      else if four_waiting \<and> tie_on_4_waiting (settings c)
              \<and> 3 < length (filter (\<lambda>p. truthy (dget (extra p) ''declared_ready''))
                             (players c))
        then Inr True
      else
        let total_kongs = sum_list (map (\<lambda>p. num_kongs (hand p)) (players c)) in
        if four_kongs \<and> tie_on_4_kongs (settings c) \<and> 3 < total_kongs then Inr True
        else
          (case (if wall_tie then
                   (case wall c of
                      None \<Rightarrow> Inl AttributeError
                    | Some w \<Rightarrow>
                        Inr (int (length w)
                               \<le> tie_wall (settings c)
                                  + int total_kongs * tie_wall_per_kong (settings c)))
                 else Inr False) of
             Inl e \<Rightarrow> Inl e
           | Inr short \<Rightarrow>
               if short then Inr True
               else if four_winds
                       \<and> (case tie_on_winds (settings c) of None \<Rightarrow> False | Some s \<Rightarrow> s \<noteq> [])
                       \<and> wind_tie c
                 then Inr True
               else Inr False))"

section \<open>Decisions and winning in a context (\<open>algo\<close>, \<open>bots\<close>)\<close>

text \<open>
  \<open>patterns.match(pattern_name, context, player_idx, incoming_tile)\<close> belongs to the
  pattern catalogue, which the specification treats as an external collaborator.  It is a
  parameter \<open>pm\<close> of every function that consults it.
\<close>

type_synonym matcher = "string \<Rightarrow> game_context \<Rightarrow> nat \<Rightarrow> tile \<Rightarrow> bool"

definition get_player_index :: "game_context \<Rightarrow> nat option \<Rightarrow> error + nat" where
  "get_player_index c player_idx =
     (case player_idx of
        Some i \<Rightarrow> Inr i
      | None \<Rightarrow> (case cur_player_idx c of Some i \<Rightarrow> Inr i | None \<Rightarrow> Inl ValueError))"

definition get_incoming_tile :: "game_context \<Rightarrow> nat \<Rightarrow> tile option \<Rightarrow> error + tile" where
  "get_incoming_tile c player_idx tile =
     (case tile of
        Some t \<Rightarrow> Inr t
      | None \<Rightarrow>
          if length (players c) \<le> player_idx then Inl IndexError
          else
            (case last_tile (hand (players c ! player_idx)) of
               Some t \<Rightarrow> Inr t
             | None \<Rightarrow>
                 (case last_discarded c of Some t \<Rightarrow> Inr t | None \<Rightarrow> Inl ValueError)))"

text \<open>
  \<open>algo.can_win\<close>.  \<open>context.players[i]\<close> raises \<open>IndexError\<close> out of range; the context
  always holds four players.  The loop over \<open>patterns_win_filter\<close> stops at the first pattern that
  does not match (\<open>list_all\<close>); the loop over \<open>patterns_win\<close> returns at the first that
  matches (\<open>list_ex\<close>).
\<close>

definition algo_can_win :: "matcher \<Rightarrow> game_context \<Rightarrow> nat option \<Rightarrow> tile option
    \<Rightarrow> error + bool" where
  "algo_can_win pm c player_idx incoming_tile =
     (case get_player_index c player_idx of
        Inl e \<Rightarrow> Inl e
      | Inr i \<Rightarrow>
          (case get_incoming_tile c i incoming_tile of
             Inl e \<Rightarrow> Inl e
           | Inr t \<Rightarrow>
               if length (players c) \<le> i then Inl IndexError
               else
               let p = players c ! i in
               if truthy (dget (extra p) ''declared_ready'')
                  \<and> truthy (dget (extra p) ''waiting_tiles'')
                  \<and> tile_in t (dget (extra p) ''waiting_tiles'')
                 then Inr True
               else if water (settings c)
                       \<and> truthy (dget (extra p) ''water'')
                       \<and> tile_in t (dget (extra p) ''water'')
                 then Inr False
               else
                 (case can_win (hand p) (Some t) of
                    Inl e \<Rightarrow> Inl e
                  | Inr b \<Rightarrow>
                      if b \<and> list_all (\<lambda>n. pm n c i t) (patterns_win_filter (settings c))
                        then Inr True
                      else Inr (list_ex (\<lambda>n. pm n c i t) (patterns_win (settings c))))))"

fun algo_ready_loop :: "matcher \<Rightarrow> game_context \<Rightarrow> nat option \<Rightarrow> tile list \<Rightarrow> error + bool" where
  "algo_ready_loop pm c player_idx [] = Inr False"
| "algo_ready_loop pm c player_idx (tile # rest) =
     (case algo_can_win pm c player_idx (Some tile) of
        Inl e \<Rightarrow> Inl e
      | Inr b \<Rightarrow> if b then Inr True else algo_ready_loop pm c player_idx rest)"

definition algo_ready :: "matcher \<Rightarrow> game_context \<Rightarrow> nat option \<Rightarrow> error + bool" where
  "algo_ready pm c player_idx = algo_ready_loop pm c player_idx ALL_tiles"

fun algo_waiting_loop :: "matcher \<Rightarrow> game_context \<Rightarrow> nat \<Rightarrow> tile list \<Rightarrow> tile list
    \<Rightarrow> error + tile list" where
  "algo_waiting_loop pm c i [] acc = Inr acc"
| "algo_waiting_loop pm c i (tile # rest) acc =
     (case algo_can_win pm c (Some i) (Some tile) of
        Inl e \<Rightarrow> Inl e
      | Inr b \<Rightarrow> algo_waiting_loop pm c i rest (if b then insort_right acc tile else acc))"

text \<open>
  \<open>algo.waiting_tiles\<close> returns the cached value of a player who declared ready, or the
  list it computes.  \<open>context.players[None]\<close> raises \<open>TypeError\<close>.
\<close>

definition algo_waiting_tiles :: "matcher \<Rightarrow> game_context \<Rightarrow> nat option \<Rightarrow> error + val" where
  "algo_waiting_tiles pm c player_idx =
     (case (case player_idx of Some i \<Rightarrow> Some i | None \<Rightarrow> cur_player_idx c) of
        None \<Rightarrow> Inl TypeError
      | Some i \<Rightarrow>
          if length (players c) \<le> i then Inl IndexError
          else
          let p = players c ! i in
          if truthy (dget (extra p) ''declared_ready'')
             \<and> dget (extra p) ''waiting_tiles'' \<noteq> VNone
            then Inr (dget (extra p) ''waiting_tiles'')
          else
            (case algo_waiting_loop pm c i ALL_tiles [] of
               Inl e \<Rightarrow> Inl e
             | Inr ts \<Rightarrow> Inr (VTiles ts)))"

definition can_4_kong_win :: "matcher \<Rightarrow> game_context \<Rightarrow> nat \<Rightarrow> tile \<Rightarrow> bool" where
  "can_4_kong_win pm c player_idx tile =
     (''four-kongs'' \<in> set (patterns_win (settings c)) \<and> pm ''four-kongs'' c player_idx tile)"

text \<open>\<open>DumbBot.make_decision\<close>, called with a non-empty list of viable decisions.\<close>

definition make_decision :: "game_context \<Rightarrow> nat \<Rightarrow> string list \<Rightarrow> decision option" where
  "make_decision c player_idx viable =
     (if state c = ''discarding''
        then map_option DTile (last_tile (hand (players c ! player_idx)))
      else if ''win'' \<in> set viable then Some (DStr ''win'')
      else if ''skip'' \<in> set viable then Some (DStr ''skip'')
      else None)"

text \<open>
  \<open>algo.get_decision(context, player_idx, viable_decisions)\<close> for viable decisions that
  are strings, as in the handlers modelled here.
\<close>

definition get_decision :: "game_context \<Rightarrow> nat option \<Rightarrow> string list option
    \<Rightarrow> error + decision option" where
  "get_decision c player_idx viable_decisions =
     (case (case player_idx of Some i \<Rightarrow> Some i | None \<Rightarrow> cur_player_idx c) of
        None \<Rightarrow> Inl TypeError
      | Some i \<Rightarrow>
          if length (players c) \<le> i then Inl IndexError
          else
          let p = players c ! i;
              viable = (case viable_decisions of
                          None \<Rightarrow> strs_of (dget (extra p) ''viable_decisions'')
                        | Some l \<Rightarrow>
                            if l \<noteq> [] then Some l
                            else strs_of (dget (extra p) ''viable_decisions''))
          in case viable of
               None \<Rightarrow> Inr None
             | Some l \<Rightarrow>
                 if l = [] then Inr None
                 else if truthy (dget (extra p) ''bot'') then Inr (make_decision c i l)
                 else if truthy (dget (extra p) ''declared_ready'') then
                   (if state c = ''discarding'' then Inr (map_option DTile (last_tile (hand p)))
                    else if ''win'' \<in> set l then Inr (Some (DStr ''win''))
                    else Inr (Some (DStr ''skip'')))
                 else
                   (case decision p of
                      Some (DStr d) \<Rightarrow> if d \<in> set l then Inr (Some (DStr d)) else Inr None
                    | _ \<Rightarrow> Inr None))"

text \<open>Truthiness of a decision, and the decision as \<open>select_melders\<close> sees it.\<close>

definition decided :: "decision option \<Rightarrow> bool" where
  "decided d = (case d of None \<Rightarrow> False | Some (DStr s) \<Rightarrow> s \<noteq> [] | Some x \<Rightarrow> True)"

definition dec_str :: "decision option \<Rightarrow> string option" where
  "dec_str d = (case d of Some (DStr s) \<Rightarrow> Some s | _ \<Rightarrow> None)"

section \<open>The state handlers (\<open>flow\<close>)\<close>

record flow_result =
  success :: bool
  reason :: "string option"
  viable_decisions :: "viable list option"

definition FlowResult :: "bool \<Rightarrow> string option \<Rightarrow> viable list option \<Rightarrow> flow_result" where
  "FlowResult ok why vd = \<lparr>success = ok, reason = why, viable_decisions = vd\<rparr>"

definition set_viable_decisions :: "flow_result \<Rightarrow> nat \<Rightarrow> viable \<Rightarrow> error + flow_result" where
  "set_viable_decisions r player_idx vd =
     (let l = (case viable_decisions r of
                 None \<Rightarrow> [None, None, None, None]
               | Some l \<Rightarrow> if l = [] then [None, None, None, None] else l)
      in if player_idx < length l then Inr (r\<lparr>viable_decisions := Some (l[player_idx := vd])\<rparr>)
         else Inl IndexError)"

text \<open>
  \<open>Handler.handle\<close>: a failed validation returns at once, with the context as the
  validation left it.
\<close>

definition handle ::
  "(game_context \<Rightarrow> error + flow_result \<times> game_context)
   \<Rightarrow> (game_context \<Rightarrow> error + game_context)
   \<Rightarrow> game_context \<Rightarrow> error + flow_result \<times> game_context" where
  "handle validate nxt c =
     (case validate c of
        Inl e \<Rightarrow> Inl e
      | Inr (result, c1) \<Rightarrow>
          if \<not> success result then Inr (result, c1)
          else (case nxt c1 of Inl e \<Rightarrow> Inl e | Inr c2 \<Rightarrow> Inr (result, c2)))"

definition upd_player :: "game_context \<Rightarrow> nat \<Rightarrow> (player \<Rightarrow> player) \<Rightarrow> game_context" where
  "upd_player c i f = c\<lparr>players := (players c)[i := f (players c ! i)]\<rparr>"

definition set_extra :: "string \<Rightarrow> val \<Rightarrow> player \<Rightarrow> player" where
  "set_extra k v p = p\<lparr>extra := (extra p)(k \<mapsto> v)\<rparr>"

definition pop_extra :: "string \<Rightarrow> player \<Rightarrow> player" where
  "pop_extra k p = p\<lparr>extra := (extra p)(k := None)\<rparr>"

subsection \<open>\<open>DrawingHandler\<close>\<close>

definition player_who_can_flower_win :: "game_context \<Rightarrow> nat \<Rightarrow> nat option \<times> nat option" where
  "player_who_can_flower_win c cur =
     (if ''seven-flowers'' \<in> set (patterns_win (settings c)) then
        let num_flowers = length (flowers (hand (players c ! seat_at cur 0)));
            others = map (\<lambda>i. seat_at cur i) [1, 2, 3]
        in case (if num_flowers = 1
                 then find (\<lambda>idx. length (flowers (hand (players c ! idx))) = 7) others
                 else None) of
             Some idx \<Rightarrow> (Some idx, Some cur)
           | None \<Rightarrow>
               (case (if num_flowers = 7
                      then find (\<lambda>idx. flowers (hand (players c ! idx)) \<noteq> []) others
                      else None) of
                  Some idx \<Rightarrow> (Some cur, Some idx)
                | None \<Rightarrow> (None, None))
      else (None, None))"

definition DrawingHandler_validate :: "game_context \<Rightarrow> error + flow_result \<times> game_context" where
  "DrawingHandler_validate c =
     (case cur_player_idx c of
        None \<Rightarrow> Inl AttributeError
      | Some cur \<Rightarrow>
          let p = players c ! seat_at cur 0 in
          if last_tile (hand p) \<noteq> None then Inr (FlowResult False (Some ''bad-context'') None, c)
          else if truthy (dget (extra p) ''flowered'') then
            (if flowers (hand p) = []
               then Inr (FlowResult False (Some ''bad-context'') None, c)
             else
               (case player_who_can_flower_win c cur of
                  (Some robber_idx, Some chucker_idx) \<Rightarrow>
                    (case get_decision c (Some robber_idx) (Some [''win'', ''skip'']) of
                       Inl e \<Rightarrow> Inl e
                     | Inr d \<Rightarrow>
                         if \<not> decided d then
                           (case set_viable_decisions
                                   (FlowResult False (Some ''decisions-needed'') None)
                                   robber_idx (Some [''win'', ''skip'']) of
                              Inl e \<Rightarrow> Inl e
                            | Inr r \<Rightarrow> Inr (r, c))
                         else
                           Inr (FlowResult True None None,
                                upd_player
                                  (c\<lparr>cextra := (cextra c)
                                       (''flower_winner'' \<mapsto> VIdx robber_idx,
                                        ''flower_chucker'' \<mapsto> VIdx chucker_idx)\<rparr>)
                                  robber_idx
                                  (set_extra ''viable_decisions'' (VStrs [''win'', ''skip''])))
                    )
                | _ \<Rightarrow> Inr (FlowResult True None None, c)))
          else Inr (FlowResult True None None, c))"

definition player_who_wants_to_flower_win ::
  "game_context \<Rightarrow> error + nat option \<times> nat option" where
  "player_who_wants_to_flower_win c =
     (case cur_player_idx c of
        None \<Rightarrow> Inl AttributeError
      | Some cur \<Rightarrow>
          if truthy (dget (extra (players c ! seat_at cur 0)) ''flowered'') then
            (case (idx_of (dget (cextra c) ''flower_winner''),
                   idx_of (dget (cextra c) ''flower_chucker'')) of
               (Some robber_idx, Some chucker_idx) \<Rightarrow>
                 (case get_decision c (Some robber_idx) None of
                    Inl e \<Rightarrow> Inl e
                  | Inr d \<Rightarrow>
                      if d = Some (DStr ''win'') then Inr (Some robber_idx, Some chucker_idx)
                      else Inr (None, None))
             | _ \<Rightarrow> Inr (None, None))
          else Inr (None, None))"

definition DrawingHandler_cleanup :: "game_context \<Rightarrow> game_context" where
  "DrawingHandler_cleanup c =
     (let c1 = c\<lparr>cextra := (cextra c)(''flower_winner'' := None)\<rparr> in
      case idx_of (dget (cextra c) ''flower_winner'') of
        None \<Rightarrow> c1
      | Some flower_winner_idx \<Rightarrow> upd_player c1 flower_winner_idx (pop_extra ''viable_decisions''))"

text \<open>
  \<open>DrawingHandler.next\<close>.  \<open>wall.draw()\<close> pops the last tile of the wall, or returns \<open>None\<close>
  when the wall is empty.
\<close>

definition DrawingHandler_next :: "game_context \<Rightarrow> error + game_context" where
  "DrawingHandler_next c =
     (case is_tie c True False False True False of
        Inl e \<Rightarrow> Inl e
      | Inr tie \<Rightarrow>
          if tie then
            Inr (DrawingHandler_cleanup
                   (c\<lparr>winners := None, state := ''end'',
                      cextra := (cextra c)(''tie_type'' \<mapsto> VStr ''wall'')\<rparr>))
          else
            (case player_who_wants_to_flower_win c of
               Inl e \<Rightarrow> Inl e
             | Inr rc \<Rightarrow>
                 (case (case rc of
                          (Some robber_idx, Some chucker_idx) \<Rightarrow>
                            (let fl = flowers (hand (players c ! chucker_idx)) in
                             if fl = [] then Inl IndexError
                             else
                               let c1 = upd_player c chucker_idx
                                          (\<lambda>p. p\<lparr>hand := (hand p)\<lparr>flowers := butlast fl\<rparr>\<rparr>);
                                   c2 = upd_player c1 robber_idx
                                          (\<lambda>p. p\<lparr>hand := add_flower (hand p) (last fl)\<rparr>);
                                   c3 = upd_player c2 robber_idx (set_extra ''flowered'' (VBool True));
                                   c4 = upd_player c3 chucker_idx (pop_extra ''flowered'')
                               in if cur_player_idx c4 \<noteq> Some robber_idx
                                  then Inr (set_turn c4 robber_idx) else Inr c4)
                        | _ \<Rightarrow> Inr c) of
                    Inl e \<Rightarrow> Inl e
                  | Inr c5 \<Rightarrow>
                      (case wall c5 of
                         None \<Rightarrow> Inl AttributeError
                       | Some w \<Rightarrow>
                           (case cur_player_idx c5 of
                              None \<Rightarrow> Inl AttributeError
                            | Some cur \<Rightarrow>
                                let drawn = (if w = [] then None else Some (last w));
                                    c6 = c5\<lparr>wall := Some (butlast w)\<rparr>;
                                    c7 = upd_player c6 (seat_at cur 0)
                                           (\<lambda>p. p\<lparr>hand := (hand p)\<lparr>last_tile := drawn\<rparr>\<rparr>)
                                in Inr (DrawingHandler_cleanup (c7\<lparr>state := ''drawn''\<rparr>)))))))"

subsection \<open>\<open>DiscardedHandler\<close>\<close>

text \<open>Truthiness of a seat's viable decisions: \<open>None\<close> and the empty list are falsy.\<close>

definition viable_truthy :: "viable \<Rightarrow> bool" where
  "viable_truthy v = (case v of None \<Rightarrow> False | Some l \<Rightarrow> l \<noteq> [])"

text \<open>
  \<open>_get_other_viable_decisions\<close>.  When nothing was discarded the tile is \<open>None\<close>:
  \<open>utils.index\<close> compares it with the free tiles, which raises \<open>AttributeError\<close> unless
  there are none, and \<open>get_chow_combs\<close> raises \<open>AttributeError\<close> at once.
\<close>

definition get_other_viable_decisions :: "matcher \<Rightarrow> game_context \<Rightarrow> nat \<Rightarrow> nat
    \<Rightarrow> error + string list" where
  "get_other_viable_decisions pm c cur player_idx =
     (let p = players c ! player_idx;
          h = hand p;
          tile = last_discarded c
      in case algo_can_win pm c (Some player_idx) tile of
           Inl e \<Rightarrow> Inl e
         | Inr w \<Rightarrow>
             (case (if truthy (dget (extra p) ''declared_ready'') then Inr []
                    else
                      (case tile of
                         None \<Rightarrow>
                           if free_tiles h \<noteq> [] then Inl AttributeError
                           else if seat_at cur 1 = player_idx then Inl AttributeError
                           else Inr []
                       | Some t \<Rightarrow>
                           (case (if seat_at cur 1 = player_idx then can_chow h t
                                  else Inr False) of
                              Inl e \<Rightarrow> Inl e
                            | Inr ch \<Rightarrow>
                                Inr ((if can_kong h t \<and> \<not> can_4_kong_win pm c player_idx t
                                      then [''kong''] else [])
                                     @ (if can_pong h t then [''pong''] else [])
                                     @ (if ch then [''chow''] else []))))) of
                Inl e \<Rightarrow> Inl e
              | Inr melds \<Rightarrow>
                  let decisions = (if w then [''win''] else []) @ melds in
                  Inr (if decisions \<noteq> [] then decisions @ [''skip''] else decisions)))"

fun discarded_viable_loop :: "matcher \<Rightarrow> game_context \<Rightarrow> nat \<Rightarrow> int list \<Rightarrow> viable list
    \<Rightarrow> error + viable list" where
  "discarded_viable_loop pm c cur [] decisions = Inr decisions"
| "discarded_viable_loop pm c cur (i # rest) decisions =
     (let player_idx = seat_at cur i in
      case get_other_viable_decisions pm c cur player_idx of
        Inl e \<Rightarrow> Inl e
      | Inr d \<Rightarrow> discarded_viable_loop pm c cur rest (decisions[player_idx := Some d]))"

definition DiscardedHandler_get_viable_decisions :: "matcher \<Rightarrow> game_context \<Rightarrow> nat
    \<Rightarrow> error + viable list" where
  "DiscardedHandler_get_viable_decisions pm c cur =
     discarded_viable_loop pm c cur [1, 2, 3] [None, None, None, None]"

text \<open>
  \<open>DiscardedHandler.validate\<close>.  The flag \<open>ready\<close> is written into the player's \<open>extra\<close>
  before the decision is looked at.
\<close>

definition DiscardedHandler_validate :: "matcher \<Rightarrow> game_context
    \<Rightarrow> error + flow_result \<times> game_context" where
  "DiscardedHandler_validate pm c =
     (case cur_player_idx c of
        None \<Rightarrow> Inr (FlowResult False (Some ''bad-context'') None, c)
      | Some cur \<Rightarrow>
          if last_discarded c = None then Inr (FlowResult False (Some ''bad-context'') None, c)
          else
            (case is_tie c True True False False True of
               Inl e \<Rightarrow> Inl e
             | Inr tie \<Rightarrow>
                 if tie then
                   Inr (FlowResult True None None,
                        c\<lparr>cextra := (cextra c)(''tie'' \<mapsto> VBool True)\<rparr>)
                 else
                   let i = seat_at cur 0; p = players c ! i in
                   if declarable (settings c) \<and> \<not> truthy (dget (extra p) ''asked'') then
                     (case algo_ready pm c None of
                        Inl e \<Rightarrow> Inl e
                      | Inr r \<Rightarrow>
                          if r then
                            (let c1 = upd_player c i (set_extra ''ready'' (VBool True)) in
                             case get_decision c1 None (Some [''declare'', ''skip'']) of
                               Inl e \<Rightarrow> Inl e
                             | Inr d \<Rightarrow>
                                 if \<not> decided d then
                                   (case set_viable_decisions
                                           (FlowResult False (Some ''decisions-needed'') None)
                                           cur (Some [''declare'', ''skip'']) of
                                      Inl e \<Rightarrow> Inl e
                                    | Inr res \<Rightarrow> Inr (res, c1))
                                 else
                                   Inr (FlowResult True None None,
                                        upd_player c1 i (\<lambda>p. p\<lparr>decision := d\<rparr>)))
                          else Inr (FlowResult True None None, c))
                   else Inr (FlowResult True None None, c)))"

text \<open>\<open>_tie\<close> labels the tie by the number of players who declared ready.\<close>

definition DiscardedHandler_tie :: "game_context \<Rightarrow> game_context" where
  "DiscardedHandler_tie c =
     c\<lparr>state := ''end'', winners := None,
       cextra := (cextra c)
         (''tie_type'' \<mapsto>
            VStr (if length (filter (\<lambda>p. truthy (dget (extra p) ''declared_ready''))
                              (players c)) < 4
                  then ''4-wind'' else ''4-waiting''))\<rparr>"

definition DiscardedHandler_declare_ready :: "matcher \<Rightarrow> game_context \<Rightarrow> error + game_context" where
  "DiscardedHandler_declare_ready pm c =
     (case cur_player_idx c of
        None \<Rightarrow> Inl AttributeError
      | Some cur \<Rightarrow>
          (case algo_waiting_tiles pm c None of
             Inl e \<Rightarrow> Inl e
           | Inr w \<Rightarrow>
               let i = seat_at cur 0;
                   c1 = upd_player c i
                          (set_extra ''waiting_tiles'' w \<circ> set_extra ''declared_ready'' (VBool True))
               in if length (discarded (players c1 ! i)) = 1
                  then Inr (upd_player c1 i (set_extra ''immediate_ready'' (VBool True)))
                  else Inr c1))"

definition DiscardedHandler_cleanup :: "game_context \<Rightarrow> error + game_context" where
  "DiscardedHandler_cleanup c =
     (case cur_player_idx c of
        None \<Rightarrow> Inl AttributeError
      | Some cur \<Rightarrow>
          let c1 = upd_player c (seat_at cur 0) (pop_extra ''asked'' \<circ> pop_extra ''ready'') in
          Inr (c1\<lparr>cextra := (cextra c1)(''tie'' := None),
                  players := map (\<lambda>p. p\<lparr>decision := None\<rparr>) (players c1)\<rparr>))"

fun store_viable_loop :: "game_context \<Rightarrow> viable list \<Rightarrow> nat list \<Rightarrow> game_context" where
  "store_viable_loop c vd [] = c"
| "store_viable_loop c vd (i # rest) =
     (case vd ! i of
        None \<Rightarrow> store_viable_loop c vd rest
      | Some l \<Rightarrow>
          if l \<noteq> []
            then store_viable_loop (upd_player c i (set_extra ''viable_decisions'' (VStrs l))) vd rest
          else store_viable_loop c vd rest)"

definition DiscardedHandler_next :: "matcher \<Rightarrow> game_context \<Rightarrow> error + game_context" where
  "DiscardedHandler_next pm c =
     (if truthy (dget (cextra c) ''tie'') then DiscardedHandler_cleanup (DiscardedHandler_tie c)
      else
        (case cur_player_idx c of
           None \<Rightarrow> Inl AttributeError
         | Some cur \<Rightarrow>
             let i = seat_at cur 0; p = players c ! i in
             if truthy (dget (extra p) ''ready'') \<and> \<not> truthy (dget (extra p) ''asked'') then
               (case (if decision p = Some (DStr ''declare'')
                      then DiscardedHandler_declare_ready pm c else Inr c) of
                  Inl e \<Rightarrow> Inl e
                | Inr c1 \<Rightarrow>
                    (case DiscardedHandler_cleanup c1 of
                       Inl e \<Rightarrow> Inl e
                     | Inr c2 \<Rightarrow> Inr (upd_player c2 i (set_extra ''asked'' (VBool True)))))
             else
               (case DiscardedHandler_get_viable_decisions pm c cur of
                  Inl e \<Rightarrow> Inl e
                | Inr vd \<Rightarrow>
                    if filter viable_truthy vd \<noteq> []
                      then DiscardedHandler_cleanup
                             (store_viable_loop (c\<lparr>state := ''melding''\<rparr>) vd [0, 1, 2, 3])
                    else DiscardedHandler_cleanup (next_turn (c\<lparr>state := ''drawing''\<rparr>)))))"

subsection \<open>\<open>SelfKongingHandler.validate\<close> and \<open>MeldingHandler.validate\<close>\<close>

text \<open>
  \<open>SelfKongingHandler._get_viable_decisions\<close> writes \<open>viable_decisions\<close> into the \<open>extra\<close>
  of the three other players while it collects them.
\<close>

fun selfkong_viable_loop :: "matcher \<Rightarrow> game_context \<Rightarrow> nat \<Rightarrow> tile option \<Rightarrow> int list
    \<Rightarrow> viable list \<Rightarrow> error + viable list \<times> game_context" where
  "selfkong_viable_loop pm c cur tile_to_kong [] decisions = Inr (decisions, c)"
| "selfkong_viable_loop pm c cur tile_to_kong (i # rest) decisions =
     (let player_idx = seat_at cur i; p = players c ! player_idx in
      if extra p ''viable_decisions'' \<noteq> None then
        selfkong_viable_loop pm c cur tile_to_kong rest
          (decisions[player_idx := strs_of (dget (extra p) ''viable_decisions'')])
      else
        (case algo_can_win pm c (Some player_idx) tile_to_kong of
           Inl e \<Rightarrow> Inl e
         | Inr w \<Rightarrow>
             if w then
               selfkong_viable_loop pm
                 (upd_player c player_idx
                    (set_extra ''viable_decisions'' (VStrs [''win'', ''skip''])))
                 cur tile_to_kong rest (decisions[player_idx := Some [''win'', ''skip'']])
             else
               selfkong_viable_loop pm
                 (upd_player c player_idx (set_extra ''viable_decisions'' VNone))
                 cur tile_to_kong rest decisions))"

fun decisions_loop :: "(nat \<Rightarrow> error + decision option) \<Rightarrow> nat list
    \<Rightarrow> error + decision option list" where
  "decisions_loop f [] = Inr []"
| "decisions_loop f (i # rest) =
     (case f i of
        Inl e \<Rightarrow> Inl e
      | Inr d \<Rightarrow>
          (case decisions_loop f rest of Inl e \<Rightarrow> Inl e | Inr ds \<Rightarrow> Inr (d # ds)))"

text \<open>The water penalty: a seat that could win and did not choose to.\<close>

fun water_loop :: "matcher \<Rightarrow> game_context \<Rightarrow> viable list \<Rightarrow> decision option list \<Rightarrow> nat list
    \<Rightarrow> error + game_context" where
  "water_loop pm c vd pd [] = Inr c"
| "water_loop pm c vd pd (i # rest) =
     (if viable_truthy (vd ! i) \<and> viable_has ''win'' (vd ! i) \<and> pd ! i \<noteq> Some (DStr ''win'')
      then
        (case algo_waiting_tiles pm c (Some i) of
           Inl e \<Rightarrow> Inl e
         | Inr w \<Rightarrow> water_loop pm (upd_player c i (set_extra ''water'' w)) vd pd rest)
      else water_loop pm c vd pd rest)"

definition SelfKongingHandler_validate :: "matcher \<Rightarrow> game_context
    \<Rightarrow> error + flow_result \<times> game_context" where
  "SelfKongingHandler_validate pm c =
     (case cur_player_idx c of
        None \<Rightarrow> Inl AttributeError
      | Some cur \<Rightarrow>
          let h = hand (players c ! seat_at cur 0) in
          if last_tile h = None then Inr (FlowResult False (Some ''bad-context'') None, c)
          else
            let kong_type = (if can_concealed_kong h then Some ''concealed''
                             else if can_appended_kong h then Some ''appended''
                             else None)
            in
            if kong_type = None then Inr (FlowResult False (Some ''bad-context'') None, c)
            else if kong_type = Some ''appended'' then
              (case selfkong_viable_loop pm c cur (last_tile h) [1, 2, 3]
                      [None, None, None, None] of
                 Inl e \<Rightarrow> Inl e
               | Inr (vd, c1) \<Rightarrow>
                   (case decisions_loop (\<lambda>i. get_decision c1 (Some i) (vd ! i)) [0, 1, 2, 3] of
                      Inl e \<Rightarrow> Inl e
                    | Inr pd \<Rightarrow>
                        (case select_melders vd (map dec_str pd) 0 of
                           Inl e \<Rightarrow> Inl e
                         | Inr ws \<Rightarrow>
                             let chosen = (case ws of None \<Rightarrow> [] | Some l \<Rightarrow> l) in
                             if chosen \<noteq> [] \<and> \<not> decided (map_option DStr (snd (hd chosen)))
                               then Inr (FlowResult False (Some ''decisions-needed'') (Some vd), c1)
                             else
                               let c2 = (if chosen \<noteq> []
                                         then c1\<lparr>cextra := (cextra c1)
                                                   (''winners'' \<mapsto> VSeats (map fst chosen))\<rparr>
                                         else c1)
                               in if water (settings c2) then
                                    (case water_loop pm c2 vd pd [0, 1, 2, 3] of
                                       Inl e \<Rightarrow> Inl e
                                     | Inr c3 \<Rightarrow> Inr (FlowResult True None None, c3))
                                  else Inr (FlowResult True None None, c2))))
            else Inr (FlowResult True None None, c))"

text \<open>
  \<open>MeldingHandler.validate\<close>.  \<open>algo.select_melders\<close> is called with two arguments, so
  its rotation starts at seat 0.
\<close>

definition MeldingHandler_validate :: "matcher \<Rightarrow> game_context
    \<Rightarrow> error + flow_result \<times> game_context" where
  "MeldingHandler_validate pm c =
     (case cur_player_idx c of
        None \<Rightarrow> Inr (FlowResult False (Some ''bad-context'') None, c)
      | Some cur \<Rightarrow>
          let p = players c ! seat_at cur 0 in
          if last_discarded c = None then Inr (FlowResult False (Some ''bad-context'') None, c)
          else if discarded p = [] then Inl IndexError
          else if last_discarded c \<noteq> Some (last (discarded p))
            then Inr (FlowResult False (Some ''bad-context'') None, c)
          else
            let vd = map (\<lambda>p. strs_of (dget (extra p) ''viable_decisions'')) (players c) in
            if filter viable_truthy vd = []
              then Inr (FlowResult False (Some ''bad-context'') None, c)
            else
              (case decisions_loop (\<lambda>i. get_decision c (Some i) None) [0, 1, 2, 3] of
                 Inl e \<Rightarrow> Inl e
               | Inr pd \<Rightarrow>
                   (case select_melders vd (map dec_str pd) 0 of
                      Inl e \<Rightarrow> Inl e
                    | Inr ms \<Rightarrow>
                        let melders = (case ms of None \<Rightarrow> [] | Some l \<Rightarrow> l) in
                        if melders \<noteq> [] \<and> \<not> decided (map_option DStr (snd (hd melders)))
                          then Inr (FlowResult False (Some ''decisions-needed'') (Some vd), c)
                        else
                          let c1 = (if melders \<noteq> []
                                    then c\<lparr>cextra := (cextra c)(''melders'' \<mapsto> VMelders melders)\<rparr>
                                    else c)
                          in if water (settings c1) then
                               (case water_loop pm c1 vd pd [0, 1, 2, 3] of
                                  Inl e \<Rightarrow> Inl e
                                | Inr c2 \<Rightarrow> Inr (FlowResult True None None, c2))
                             else Inr (FlowResult True None None, c1))))"

subsection \<open>\<open>ScoredHandler\<close>\<close>

definition clear_hands :: "game_context \<Rightarrow> game_context" where
  "clear_hands c =
     (reset_players c)\<lparr>discarded_pool := [], cur_player_idx := Some 0, last_player_idx := None\<rparr>"

definition get_next_dealer :: "game_context \<Rightarrow> nat" where
  "get_next_dealer c =
     (if (no_winners c \<or> dealer c \<in> set (case winners c of None \<Rightarrow> [] | Some ws \<Rightarrow> ws))
         \<and> dealer_defended c < max_dealer_defended (settings c)
      then dealer c
      else (dealer c + 1) mod 4)"

definition should_goto_next_round :: "game_context \<Rightarrow> bool" where
  "should_goto_next_round c = (dealer c = 3 \<and> get_next_dealer c \<noteq> dealer c)"

definition update_round_and_match :: "game_context \<Rightarrow> game_context" where
  "update_round_and_match c =
     (if should_goto_next_round c then c\<lparr>round := round c + 1, match := 0\<rparr>
      else c\<lparr>match := match c + 1\<rparr>)"

definition set_next_dealer :: "game_context \<Rightarrow> game_context" where
  "set_next_dealer c =
     (let next_dealer = get_next_dealer c in
      if next_dealer = dealer c then c\<lparr>dealer_defended := dealer_defended c + 1\<rparr>
      else c\<lparr>dealer := next_dealer, dealer_defended := 0\<rparr>)"

definition ScoredHandler_next :: "game_context \<Rightarrow> error + game_context" where
  "ScoredHandler_next c =
     (let c1 = clear_hands c;
          c2 = update_round_and_match c1;
          c3 = set_next_dealer c2
      in Inr (c3\<lparr>winners := None, state := ''start'', cextra := Map.empty\<rparr>))"

section \<open>Specification vocabulary\<close>

text \<open>
  The notions the claims are stated with, in the specification's words.  A numeric tile
  is a tile of one of the three suits with ranks 1 to 9.  Three tiles form a run when they
  are of one numeric suit and of three consecutive ranks, here listed in ascending order.
\<close>

definition numeric :: "tile \<Rightarrow> bool" where
  "numeric t = (is_char t \<or> is_circle t \<or> is_bamboo t)"

definition is_run3 :: "tile \<Rightarrow> tile \<Rightarrow> tile \<Rightarrow> bool" where
  "is_run3 x y z =
     (numeric x \<and> suit y = suit x \<and> suit z = suit x
      \<and> (\<exists>k. rank x = Some k \<and> rank y = Some (k + 1) \<and> rank z = Some (k + 2)))"

text \<open>
  Two free tiles \<open>a\<close>, \<open>b\<close> (with \<open>a\<close> below \<open>b\<close>) complete a chow with the incoming tile
  when the three tiles, put in ascending order, form a run.
\<close>

definition forms_chow :: "tile \<Rightarrow> tile \<Rightarrow> tile \<Rightarrow> bool" where
  "forms_chow a b t = (is_run3 a b t \<or> is_run3 a t b \<or> is_run3 t a b)"

text \<open>The 21 runs, listed for case analysis.\<close>

definition runs :: "(tile \<times> tile \<times> tile) list" where
  "runs =
     [(CHAR1, CHAR2, CHAR3), (CHAR2, CHAR3, CHAR4), (CHAR3, CHAR4, CHAR5),
      (CHAR4, CHAR5, CHAR6), (CHAR5, CHAR6, CHAR7), (CHAR6, CHAR7, CHAR8),
      (CHAR7, CHAR8, CHAR9),
      (CIRCLE1, CIRCLE2, CIRCLE3), (CIRCLE2, CIRCLE3, CIRCLE4), (CIRCLE3, CIRCLE4, CIRCLE5),
      (CIRCLE4, CIRCLE5, CIRCLE6), (CIRCLE5, CIRCLE6, CIRCLE7), (CIRCLE6, CIRCLE7, CIRCLE8),
      (CIRCLE7, CIRCLE8, CIRCLE9),
      (BAMBOO1, BAMBOO2, BAMBOO3), (BAMBOO2, BAMBOO3, BAMBOO4), (BAMBOO3, BAMBOO4, BAMBOO5),
      (BAMBOO4, BAMBOO5, BAMBOO6), (BAMBOO5, BAMBOO6, BAMBOO7), (BAMBOO6, BAMBOO7, BAMBOO8),
      (BAMBOO7, BAMBOO8, BAMBOO9)]"

text \<open>
  The hand after a call that either raised before changing the hand or returned the new
  hand.
\<close>

definition hand_after :: "hand \<Rightarrow> error + hand \<Rightarrow> hand" where
  "hand_after h r = (case r of Inl e \<Rightarrow> h | Inr h' \<Rightarrow> h')"

text \<open>An example hand, built by the constructor from four unsorted tiles.\<close>

definition H0 :: hand where
  "H0 = Hand_init (Some [CHAR3, CHAR1, CHAR2, CHAR1])"

section \<open>Theorems\<close>

subsection \<open>Binary search on sorted lists\<close>

declare bisect_left_loop.simps [simp del] bisect_right_loop.simps [simp del] count_run.simps [simp del]

lemma bisect_right_loop_bounds:
  "lo \<le> hi \<Longrightarrow> lo \<le> bisect_right_loop a x lo hi \<and> bisect_right_loop a x lo hi \<le> hi"
proof (induction a x lo hi rule: bisect_right_loop.induct)
  case (1 a x lo hi)
  show ?case
  proof (cases "lo < hi")
    case False
    then have "bisect_right_loop a x lo hi = lo"
      by (simp add: bisect_right_loop.simps [of a x lo hi])
    with 1(3) show ?thesis by simp
  next
    case True
    define mid where "mid = (lo + hi) div 2"
    have m: "lo \<le> mid" "mid < hi" using True by (auto simp: mid_def)
    show ?thesis
    proof (cases "x < a ! mid")
      case True
      with 1(1) [of mid] \<open>lo < hi\<close> m show ?thesis
        by (simp add: bisect_right_loop.simps [of a x lo hi] mid_def Let_def)
    next
      case False
      with 1(2) [of mid] \<open>lo < hi\<close> m show ?thesis
        by (simp add: bisect_right_loop.simps [of a x lo hi] mid_def Let_def)
    qed
  qed
qed

lemma mset_insort_right: "mset (insort_right a x) = add_mset x (mset a)"
proof -
  have "mset (take n a @ x # drop n a) = add_mset x (mset a)" for n
    by (metis append_take_drop_id mset.simps(2) mset_append union_mset_add_mset_right)
  then show ?thesis by (simp add: insort_right_def Let_def)
qed

lemma bisect_right_loop_inv:
  assumes "sorted a" "lo \<le> hi" "hi \<le> length a"
    "\<forall>i<lo. a ! i \<le> x" "\<forall>i. hi \<le> i \<and> i < length a \<longrightarrow> x < a ! i"
  shows "(\<forall>i<bisect_right_loop a x lo hi. a ! i \<le> x)
       \<and> (\<forall>i. bisect_right_loop a x lo hi \<le> i \<and> i < length a \<longrightarrow> x < a ! i)"
  using assms
proof (induction a x lo hi rule: bisect_right_loop.induct)
  case (1 a x lo hi)
  note srt = \<open>sorted a\<close> and le = \<open>lo \<le> hi\<close> and len = \<open>hi \<le> length a\<close>
    and low = \<open>\<forall>i<lo. a ! i \<le> x\<close>
    and high = \<open>\<forall>i. hi \<le> i \<and> i < length a \<longrightarrow> x < a ! i\<close>
  show ?case
  proof (cases "lo < hi")
    case False
    then have r: "bisect_right_loop a x lo hi = lo"
      by (simp add: bisect_right_loop.simps [of a x lo hi])
    from False le have "lo = hi" by simp
    with low high show ?thesis unfolding r by simp
  next
    case True
    define mid where "mid = (lo + hi) div 2"
    have m: "lo \<le> mid" "mid < hi" using True by (auto simp: mid_def)
    show ?thesis
    proof (cases "x < a ! mid")
      case xlt: True
      have r: "bisect_right_loop a x lo hi = bisect_right_loop a x lo mid"
        using True xlt by (simp add: bisect_right_loop.simps [of a x lo hi] mid_def Let_def)
      have "x < a ! i" if "mid \<le> i \<and> i < length a" for i
      proof -
        have "a ! mid \<le> a ! i" using srt that by (simp add: sorted_nth_mono)
        with xlt show ?thesis by simp
      qed
      then have high': "\<forall>i. mid \<le> i \<and> i < length a \<longrightarrow> x < a ! i" by blast
      have "mid \<le> length a" using m len by simp
      from "1.IH"(1) [OF True mid_def xlt srt m(1) this low high']
      show ?thesis unfolding r .
    next
      case nlt: False
      have r: "bisect_right_loop a x lo hi = bisect_right_loop a x (mid + 1) hi"
        using True nlt by (simp add: bisect_right_loop.simps [of a x lo hi] mid_def Let_def)
      have "a ! i \<le> x" if "i < mid + 1" for i
      proof -
        have "a ! i \<le> a ! mid" using srt that m len by (simp add: sorted_nth_mono)
        with nlt show ?thesis by simp
      qed
      then have low': "\<forall>i<mid + 1. a ! i \<le> x" by blast
      have "mid + 1 \<le> hi" using m by simp
      from "1.IH"(2) [OF True mid_def nlt srt this len low' high]
      show ?thesis unfolding r .
    qed
  qed
qed

lemma bisect_left_loop_bounds:
  "lo \<le> hi \<Longrightarrow> lo \<le> bisect_left_loop a x lo hi \<and> bisect_left_loop a x lo hi \<le> hi"
proof (induction a x lo hi rule: bisect_left_loop.induct)
  case (1 a x lo hi)
  show ?case
  proof (cases "lo < hi")
    case False
    then have "bisect_left_loop a x lo hi = lo"
      by (simp add: bisect_left_loop.simps [of a x lo hi])
    with 1(3) show ?thesis by simp
  next
    case True
    define mid where "mid = (lo + hi) div 2"
    have m: "lo \<le> mid" "mid < hi" using True by (auto simp: mid_def)
    show ?thesis
    proof (cases "a ! mid < x")
      case True
      with 1(1) [of mid] \<open>lo < hi\<close> m show ?thesis
        by (simp add: bisect_left_loop.simps [of a x lo hi] mid_def Let_def)
    next
      case False
      with 1(2) [of mid] \<open>lo < hi\<close> m show ?thesis
        by (simp add: bisect_left_loop.simps [of a x lo hi] mid_def Let_def)
    qed
  qed
qed

lemma bisect_left_loop_inv:
  assumes "sorted a" "lo \<le> hi" "hi \<le> length a"
    "\<forall>i<lo. a ! i < x" "\<forall>i. hi \<le> i \<and> i < length a \<longrightarrow> x \<le> a ! i"
  shows "(\<forall>i<bisect_left_loop a x lo hi. a ! i < x)
       \<and> (\<forall>i. bisect_left_loop a x lo hi \<le> i \<and> i < length a \<longrightarrow> x \<le> a ! i)"
  using assms
proof (induction a x lo hi rule: bisect_left_loop.induct)
  case (1 a x lo hi)
  note srt = \<open>sorted a\<close> and le = \<open>lo \<le> hi\<close> and len = \<open>hi \<le> length a\<close>
    and low = \<open>\<forall>i<lo. a ! i < x\<close>
    and high = \<open>\<forall>i. hi \<le> i \<and> i < length a \<longrightarrow> x \<le> a ! i\<close>
  show ?case
  proof (cases "lo < hi")
    case False
    then have r: "bisect_left_loop a x lo hi = lo"
      by (simp add: bisect_left_loop.simps [of a x lo hi])
    from False le have "lo = hi" by simp
    with low high show ?thesis unfolding r by simp
  next
    case True
    define mid where "mid = (lo + hi) div 2"
    have m: "lo \<le> mid" "mid < hi" using True by (auto simp: mid_def)
    show ?thesis
    proof (cases "a ! mid < x")
      case lt: True
      have r: "bisect_left_loop a x lo hi = bisect_left_loop a x (mid + 1) hi"
        using True lt by (simp add: bisect_left_loop.simps [of a x lo hi] mid_def Let_def)
      have "a ! i < x" if "i < mid + 1" for i
      proof -
        have "a ! i \<le> a ! mid" using srt that m len by (simp add: sorted_nth_mono)
        with lt show ?thesis by simp
      qed
      then have low': "\<forall>i<mid + 1. a ! i < x" by blast
      have "mid + 1 \<le> hi" using m by simp
      from "1.IH"(1) [OF True mid_def lt srt this len low' high]
      show ?thesis unfolding r .
    next
      case nlt: False
      have r: "bisect_left_loop a x lo hi = bisect_left_loop a x lo mid"
        using True nlt by (simp add: bisect_left_loop.simps [of a x lo hi] mid_def Let_def)
      have "x \<le> a ! i" if "mid \<le> i \<and> i < length a" for i
      proof -
        have "a ! mid \<le> a ! i" using srt that by (simp add: sorted_nth_mono)
        with nlt show ?thesis by simp
      qed
      then have high': "\<forall>i. mid \<le> i \<and> i < length a \<longrightarrow> x \<le> a ! i" by blast
      have "mid \<le> length a" using m len by simp
      from "1.IH"(2) [OF True mid_def nlt srt m(1) this low high']
      show ?thesis unfolding r .
    qed
  qed
qed



lemma sorted_split3:
  "sorted (a :: tile list) \<Longrightarrow>
   a = filter (\<lambda>y. y < x) a @ filter (\<lambda>y. y = x) a @ filter (\<lambda>y. x < y) a"
proof (induction a)
  case Nil
  show ?case by simp
next
  case (Cons y ys)
  then have ih: "ys = filter (\<lambda>y. y < x) ys @ filter (\<lambda>y. y = x) ys @ filter (\<lambda>y. x < y) ys"
    and ge: "\<forall>z\<in>set ys. y \<le> z" by auto
  consider "y < x" | "y = x" | "x < y" by (meson less_linear)
  then show ?case
  proof cases
    case 1
    then show ?thesis using ih by auto
  next
    case 2
    then have "filter (\<lambda>y. y < x) ys = []" using ge by (auto simp: filter_empty_conv)
    then show ?thesis using ih 2 by auto
  next
    case 3
    then have "filter (\<lambda>y. y < x) ys = []" "filter (\<lambda>y. y = x) ys = []"
      "filter (\<lambda>y. x < y) ys = ys"
      using ge by (auto simp: filter_empty_conv filter_id_conv)
    then show ?thesis using 3 by auto
  qed
qed

lemma sorted_split2:
  "sorted (a :: tile list) \<Longrightarrow> a = filter (\<lambda>y. y \<le> x) a @ filter (\<lambda>y. x < y) a"
proof (induction a)
  case Nil
  show ?case by simp
next
  case (Cons y ys)
  then have ih: "ys = filter (\<lambda>y. y \<le> x) ys @ filter (\<lambda>y. x < y) ys"
    and ge: "\<forall>z\<in>set ys. y \<le> z" by auto
  show ?case
  proof (cases "y \<le> x")
    case True
    then show ?thesis using ih by auto
  next
    case False
    then have "filter (\<lambda>y. y \<le> x) ys = []" "filter (\<lambda>y. x < y) ys = ys"
      using ge by (auto simp: filter_empty_conv filter_id_conv)
    then show ?thesis using False by auto
  qed
qed

lemma bisect_left_le: "bisect_left a x \<le> length a"
  using bisect_left_loop_bounds [of 0 "length a" a x] by (simp add: bisect_left_def)

lemma bisect_right_le: "bisect_right a x \<le> length a"
  using bisect_right_loop_bounds [of 0 "length a" a x] by (simp add: bisect_right_def)

lemma bisect_left_sorted:
  assumes "sorted a"
  shows "bisect_left a x = length (filter (\<lambda>y. y < x) a)"
proof -
  define L where "L = filter (\<lambda>y. y < x) a"
  define R where "R = filter (\<lambda>y. y = x) a @ filter (\<lambda>y. x < y) a"
  define r where "r = bisect_left a x"
  have a: "a = L @ R" unfolding L_def R_def by (rule sorted_split3 [OF assms])
  have sL: "\<forall>y\<in>set L. y < x" and sR: "\<forall>y\<in>set R. x \<le> y"
    by (auto simp: L_def R_def)
  have "(\<forall>i<bisect_left_loop a x 0 (length a). a ! i < x)
      \<and> (\<forall>i. bisect_left_loop a x 0 (length a) \<le> i \<and> i < length a \<longrightarrow> x \<le> a ! i)"
    by (rule bisect_left_loop_inv [OF assms]) auto
  then have spec1: "\<forall>i<r. a ! i < x" and spec2: "\<forall>i. r \<le> i \<and> i < length a \<longrightarrow> x \<le> a ! i"
    by (simp_all add: r_def bisect_left_def)
  have rle: "r \<le> length a" unfolding r_def by (rule bisect_left_le)
  have len: "length a = length L + length R" unfolding a by simp
  have "\<not> r < length L"
  proof
    assume h: "r < length L"
    then have "a ! r = L ! r" unfolding a by (simp add: nth_append)
    with h sL have "a ! r < x" by simp
    moreover have "x \<le> a ! r" using spec2 h len by simp
    ultimately show False by simp
  qed
  moreover have "\<not> length L < r"
  proof
    assume h: "length L < r"
    then have "a ! length L < x" using spec1 by simp
    moreover have "R \<noteq> []" using h rle len by auto
    then have "R ! 0 \<in> set R" by simp
    moreover have "a ! length L = R ! 0" unfolding a by (simp add: nth_append)
    ultimately show False using sR by auto
  qed
  ultimately show ?thesis by (simp add: r_def L_def)
qed

lemma bisect_right_sorted:
  assumes "sorted a"
  shows "bisect_right a x = length (filter (\<lambda>y. y \<le> x) a)"
proof -
  define L where "L = filter (\<lambda>y. y \<le> x) a"
  define R where "R = filter (\<lambda>y. x < y) a"
  define r where "r = bisect_right a x"
  have a: "a = L @ R" unfolding L_def R_def by (rule sorted_split2 [OF assms])
  have sL: "\<forall>y\<in>set L. y \<le> x" and sR: "\<forall>y\<in>set R. x < y"
    by (auto simp: L_def R_def)
  have "(\<forall>i<bisect_right_loop a x 0 (length a). a ! i \<le> x)
      \<and> (\<forall>i. bisect_right_loop a x 0 (length a) \<le> i \<and> i < length a \<longrightarrow> x < a ! i)"
    by (rule bisect_right_loop_inv [OF assms]) auto
  then have spec1: "\<forall>i<r. a ! i \<le> x" and spec2: "\<forall>i. r \<le> i \<and> i < length a \<longrightarrow> x < a ! i"
    by (simp_all add: r_def bisect_right_def)
  have rle: "r \<le> length a" unfolding r_def by (rule bisect_right_le)
  have len: "length a = length L + length R" unfolding a by simp
  have "\<not> r < length L"
  proof
    assume h: "r < length L"
    then have "a ! r = L ! r" unfolding a by (simp add: nth_append)
    with h sL have "a ! r \<le> x" by simp
    moreover have "x < a ! r" using spec2 h len by simp
    ultimately show False by simp
  qed
  moreover have "\<not> length L < r"
  proof
    assume h: "length L < r"
    then have "a ! length L \<le> x" using spec1 by simp
    moreover have "R \<noteq> []" using h rle len by auto
    then have "R ! 0 \<in> set R" by simp
    moreover have "a ! length L = R ! 0" unfolding a by (simp add: nth_append)
    ultimately show False using sR by auto
  qed
  ultimately show ?thesis by (simp add: r_def L_def)
qed

lemma insort_right_sorted:
  assumes "sorted a"
  shows "insort_right a x = filter (\<lambda>y. y \<le> x) a @ x # filter (\<lambda>y. x < y) a"
proof -
  define L where "L = filter (\<lambda>y. y \<le> x) a"
  define R where "R = filter (\<lambda>y. x < y) a"
  have a: "a = L @ R" unfolding L_def R_def by (rule sorted_split2 [OF assms])
  have r: "bisect_right a x = length L"
    unfolding L_def by (rule bisect_right_sorted [OF assms])
  have "take (length L) a = L" "drop (length L) a = R"
    unfolding a by simp_all
  then have "insort_right a x = L @ x # R"
    by (simp add: insort_right_def Let_def r)
  then show ?thesis by (simp add: L_def R_def)
qed

lemma sorted_insort_right: "sorted a \<Longrightarrow> sorted (insort_right a x)"
  by (auto simp: insort_right_sorted sorted_append intro: sorted_wrt_filter)

lemma filter_eq_replicate: "filter (\<lambda>y. y = x) a = replicate (count_list a x) x"
  by (induction a) auto

lemma sorted_blocks:
  assumes "sorted (a :: tile list)"
  obtains L G where "a = L @ replicate (count_list a x) x @ G"
    and "\<forall>y\<in>set L. y < x" and "\<forall>y\<in>set G. x < y" and "bisect_left a x = length L"
proof
  show "a = filter (\<lambda>y. y < x) a @ replicate (count_list a x) x @ filter (\<lambda>y. x < y) a"
    using sorted_split3 [OF assms, of x] by (simp add: filter_eq_replicate)
  show "\<forall>y\<in>set (filter (\<lambda>y. y < x) a). y < x" by simp
  show "\<forall>y\<in>set (filter (\<lambda>y. x < y) a). x < y" by simp
  show "bisect_left a x = length (filter (\<lambda>y. y < x) a)"
    by (rule bisect_left_sorted [OF assms])
qed

text \<open>The shape of a sorted list around a tile, with the list itself abstracted.\<close>

lemma nth_blocks:
  assumes "\<forall>y\<in>set G. x < (y::tile)"
  shows "k < n \<Longrightarrow> (L @ replicate n x @ G) ! (length L + k) = x"
    and "n \<le> k \<Longrightarrow> length L + k < length (L @ replicate n x @ G)
         \<Longrightarrow> (L @ replicate n x @ G) ! (length L + k) \<noteq> x"
proof -
  show "k < n \<Longrightarrow> (L @ replicate n x @ G) ! (length L + k) = x"
    by (simp add: nth_append)
  assume h: "n \<le> k" "length L + k < length (L @ replicate n x @ G)"
  then have "k - n < length G" by simp
  then have "G ! (k - n) \<in> set G" by simp
  moreover have "(L @ replicate n x @ G) ! (length L + k) = G ! (k - n)"
    using h by (simp add: nth_append)
  ultimately show "(L @ replicate n x @ G) ! (length L + k) \<noteq> x"
    using assms by auto
qed

lemma index_sorted:
  assumes "sorted a"
  shows "index a x = (if x \<in> set a then int (length (filter (\<lambda>y. y < x) a)) else - 1)"
proof -
  obtain L G where a: "a = L @ replicate (count_list a x) x @ G"
    and L: "\<forall>y\<in>set L. y < x" and G: "\<forall>y\<in>set G. x < y" and b: "bisect_left a x = length L"
    by (rule sorted_blocks [OF assms])
  define n where "n = count_list a x"
  have a': "a = L @ replicate n x @ G" using a by (simp add: n_def)
  have bl: "length L = length (filter (\<lambda>y. y < x) a)"
    using b bisect_left_sorted [OF assms, of x] by simp
  have mem: "x \<in> set a \<longleftrightarrow> 0 < n"
    unfolding n_def by (simp add: count_list_0_iff zero_less_iff_neq_zero)
  show ?thesis
  proof (cases "0 < n")
    case True
    then have "a ! length L = x"
      using nth_blocks(1) [OF G, of 0 n L] a' by simp
    moreover have "length L \<noteq> length a" using True by (subst a') simp
    ultimately show ?thesis using True mem b bl by (simp add: index_def)
  next
    case False
    then have n0: "n = 0" by simp
    have "length L \<noteq> length a \<Longrightarrow> a ! length L \<noteq> x"
      using nth_blocks(2) [OF G, of n 0 L] a' n0 by (metis add.right_neutral le_refl le_neq_implies_less length_append le_add1)
    then show ?thesis using False mem b by (auto simp: index_def Let_def)
  qed
qed

lemma index_nonneg_iff: "sorted a \<Longrightarrow> 0 \<le> index a x \<longleftrightarrow> x \<in> set a"
  by (simp add: index_sorted)

lemma del_at_index:
  assumes "sorted a" "x \<in> set a"
  shows "del_at a (nat (index a x)) = remove1 x a"
proof -
  obtain L G where a: "a = L @ replicate (count_list a x) x @ G"
    and L: "\<forall>y\<in>set L. y < x" and G: "\<forall>y\<in>set G. x < y" and b: "bisect_left a x = length L"
    by (rule sorted_blocks [OF assms(1)])
  define n where "n = count_list a x"
  have a': "a = L @ replicate n x @ G" using a by (simp add: n_def)
  have "0 < n" unfolding n_def using assms(2) by (simp add: count_list_0_iff zero_less_iff_neq_zero)
  then obtain m where m: "n = Suc m" by (cases n) auto
  have i: "nat (index a x) = length L"
    using index_sorted [OF assms(1), of x] assms(2) b bisect_left_sorted [OF assms(1), of x] by simp
  have xL: "x \<notin> set L" using L by auto
  have "del_at (L @ x # replicate m x @ G) (length L) = L @ replicate m x @ G"
    by (simp add: del_at_def)
  moreover have "remove1 x (L @ x # replicate m x @ G) = L @ replicate m x @ G"
    using xL by (simp add: remove1_append)
  ultimately show ?thesis unfolding i by (subst (1 2) a') (simp add: m)
qed

lemma count_run_takeWhile:
  "count_run a x idx c = c + length (takeWhile (\<lambda>y. y = x) (drop idx a))"
proof (induction a x idx c rule: count_run.induct)
  case (1 a tile idx cnt)
  show ?case
  proof (cases "idx < length a \<and> a ! idx = tile")
    case True
    then have d: "drop idx a = tile # drop (Suc idx) a"
      by (metis Cons_nth_drop_Suc)
    show ?thesis
      using True "1.IH" [OF True] by (subst count_run.simps) (simp add: d)
  next
    case False
    then have "takeWhile (\<lambda>y. y = tile) (drop idx a) = []"
      by (cases "idx < length a") (auto simp: takeWhile_eq_Nil_iff hd_drop_conv_nth)
    then show ?thesis using False by (subst count_run.simps) auto
  qed
qed

lemma count_run_sorted:
  assumes "sorted a" "x \<in> set a"
  shows "count_run a x (nat (index a x)) c = c + count_list a x"
proof -
  obtain L G where a: "a = L @ replicate (count_list a x) x @ G"
    and L: "\<forall>y\<in>set L. y < x" and G: "\<forall>y\<in>set G. x < y" and b: "bisect_left a x = length L"
    by (rule sorted_blocks [OF assms(1)])
  define n where "n = count_list a x"
  have a': "a = L @ replicate n x @ G" using a by (simp add: n_def)
  have i: "nat (index a x) = length L"
    using index_sorted [OF assms(1), of x] assms(2) b bisect_left_sorted [OF assms(1), of x] by simp
  have "takeWhile (\<lambda>y. y = x) G = []"
    using G by (cases G) auto
  then have "takeWhile (\<lambda>y. y = x) (replicate n x @ G) = replicate n x"
    by (induction n) auto
  then have "takeWhile (\<lambda>y. y = x) (drop (length L) (L @ replicate n x @ G)) = replicate n x"
    by simp
  then have "length (takeWhile (\<lambda>y. y = x) (drop (length L) a)) = n"
    by (subst a') simp
  then show ?thesis by (simp add: count_run_takeWhile i n_def)
qed

lemma next_equal_sorted:
  assumes "sorted a" "x \<in> set a"
  shows "(index a x < int (length a) - int k \<and> a ! nat (index a x + int k) = x)
         \<longleftrightarrow> k < count_list a x"
proof -
  obtain L G where a: "a = L @ replicate (count_list a x) x @ G"
    and L: "\<forall>y\<in>set L. y < x" and G: "\<forall>y\<in>set G. x < y" and b: "bisect_left a x = length L"
    by (rule sorted_blocks [OF assms(1)])
  define n where "n = count_list a x"
  have a': "a = L @ replicate n x @ G" using a by (simp add: n_def)
  have i: "index a x = int (length L)"
    using index_sorted [OF assms(1), of x] assms(2) b bisect_left_sorted [OF assms(1), of x] by simp
  have len: "length a = length L + n + length G" by (subst a') simp
  have idx: "nat (int (length L) + int k) = length L + k" by (simp add: nat_int_add)
  show ?thesis
  proof (cases "k < n")
    case True
    then have "a ! (length L + k) = x"
      using nth_blocks(1) [OF G, of k n L] a' by simp
    then show ?thesis using True len by (simp add: idx i n_def [symmetric])
  next
    case False
    then have "length L + k < length a \<Longrightarrow> a ! (length L + k) \<noteq> x"
      using nth_blocks(2) [OF G, of n k L] a' by simp
    then show ?thesis using False len by (auto simp: idx i n_def [symmetric])
  qed
qed

subsection \<open>Tiles, suits and runs\<close>

lemma tile_id_conv:
  "tile_id y = 0x0101 \<longleftrightarrow> y = CHAR1"
  "tile_id y = 0x0102 \<longleftrightarrow> y = CHAR2"
  "tile_id y = 0x0103 \<longleftrightarrow> y = CHAR3"
  "tile_id y = 0x0104 \<longleftrightarrow> y = CHAR4"
  "tile_id y = 0x0105 \<longleftrightarrow> y = CHAR5"
  "tile_id y = 0x0106 \<longleftrightarrow> y = CHAR6"
  "tile_id y = 0x0107 \<longleftrightarrow> y = CHAR7"
  "tile_id y = 0x0108 \<longleftrightarrow> y = CHAR8"
  "tile_id y = 0x0109 \<longleftrightarrow> y = CHAR9"
  "tile_id y = 0x0201 \<longleftrightarrow> y = CIRCLE1"
  "tile_id y = 0x0202 \<longleftrightarrow> y = CIRCLE2"
  "tile_id y = 0x0203 \<longleftrightarrow> y = CIRCLE3"
  "tile_id y = 0x0204 \<longleftrightarrow> y = CIRCLE4"
  "tile_id y = 0x0205 \<longleftrightarrow> y = CIRCLE5"
  "tile_id y = 0x0206 \<longleftrightarrow> y = CIRCLE6"
  "tile_id y = 0x0207 \<longleftrightarrow> y = CIRCLE7"
  "tile_id y = 0x0208 \<longleftrightarrow> y = CIRCLE8"
  "tile_id y = 0x0209 \<longleftrightarrow> y = CIRCLE9"
  "tile_id y = 0x0401 \<longleftrightarrow> y = BAMBOO1"
  "tile_id y = 0x0402 \<longleftrightarrow> y = BAMBOO2"
  "tile_id y = 0x0403 \<longleftrightarrow> y = BAMBOO3"
  "tile_id y = 0x0404 \<longleftrightarrow> y = BAMBOO4"
  "tile_id y = 0x0405 \<longleftrightarrow> y = BAMBOO5"
  "tile_id y = 0x0406 \<longleftrightarrow> y = BAMBOO6"
  "tile_id y = 0x0407 \<longleftrightarrow> y = BAMBOO7"
  "tile_id y = 0x0408 \<longleftrightarrow> y = BAMBOO8"
  "tile_id y = 0x0409 \<longleftrightarrow> y = BAMBOO9"
  "tile_id y = 0x1000 \<longleftrightarrow> y = EAST"
  "tile_id y = 0x1002 \<longleftrightarrow> y = SOUTH"
  "tile_id y = 0x1004 \<longleftrightarrow> y = WEST"
  "tile_id y = 0x1006 \<longleftrightarrow> y = NORTH"
  "tile_id y = 0x1800 \<longleftrightarrow> y = RED"
  "tile_id y = 0x1802 \<longleftrightarrow> y = GREEN"
  "tile_id y = 0x1804 \<longleftrightarrow> y = WHITE"
  "tile_id y = 0x4000 \<longleftrightarrow> y = PLUM"
  "tile_id y = 0x4002 \<longleftrightarrow> y = ORCHID"
  "tile_id y = 0x4004 \<longleftrightarrow> y = BAMBOO"
  "tile_id y = 0x4006 \<longleftrightarrow> y = CHRYSANTH"
  "tile_id y = 0x6000 \<longleftrightarrow> y = SPRING"
  "tile_id y = 0x6002 \<longleftrightarrow> y = SUMMER"
  "tile_id y = 0x6004 \<longleftrightarrow> y = AUTUMN"
  "tile_id y = 0x6006 \<longleftrightarrow> y = WINTER"
  by (cases y; simp)+

lemma tile_id_conv_sym:
  "0x0101 = tile_id y \<longleftrightarrow> y = CHAR1"
  "0x0102 = tile_id y \<longleftrightarrow> y = CHAR2"
  "0x0103 = tile_id y \<longleftrightarrow> y = CHAR3"
  "0x0104 = tile_id y \<longleftrightarrow> y = CHAR4"
  "0x0105 = tile_id y \<longleftrightarrow> y = CHAR5"
  "0x0106 = tile_id y \<longleftrightarrow> y = CHAR6"
  "0x0107 = tile_id y \<longleftrightarrow> y = CHAR7"
  "0x0108 = tile_id y \<longleftrightarrow> y = CHAR8"
  "0x0109 = tile_id y \<longleftrightarrow> y = CHAR9"
  "0x0201 = tile_id y \<longleftrightarrow> y = CIRCLE1"
  "0x0202 = tile_id y \<longleftrightarrow> y = CIRCLE2"
  "0x0203 = tile_id y \<longleftrightarrow> y = CIRCLE3"
  "0x0204 = tile_id y \<longleftrightarrow> y = CIRCLE4"
  "0x0205 = tile_id y \<longleftrightarrow> y = CIRCLE5"
  "0x0206 = tile_id y \<longleftrightarrow> y = CIRCLE6"
  "0x0207 = tile_id y \<longleftrightarrow> y = CIRCLE7"
  "0x0208 = tile_id y \<longleftrightarrow> y = CIRCLE8"
  "0x0209 = tile_id y \<longleftrightarrow> y = CIRCLE9"
  "0x0401 = tile_id y \<longleftrightarrow> y = BAMBOO1"
  "0x0402 = tile_id y \<longleftrightarrow> y = BAMBOO2"
  "0x0403 = tile_id y \<longleftrightarrow> y = BAMBOO3"
  "0x0404 = tile_id y \<longleftrightarrow> y = BAMBOO4"
  "0x0405 = tile_id y \<longleftrightarrow> y = BAMBOO5"
  "0x0406 = tile_id y \<longleftrightarrow> y = BAMBOO6"
  "0x0407 = tile_id y \<longleftrightarrow> y = BAMBOO7"
  "0x0408 = tile_id y \<longleftrightarrow> y = BAMBOO8"
  "0x0409 = tile_id y \<longleftrightarrow> y = BAMBOO9"
  "0x1000 = tile_id y \<longleftrightarrow> y = EAST"
  "0x1002 = tile_id y \<longleftrightarrow> y = SOUTH"
  "0x1004 = tile_id y \<longleftrightarrow> y = WEST"
  "0x1006 = tile_id y \<longleftrightarrow> y = NORTH"
  "0x1800 = tile_id y \<longleftrightarrow> y = RED"
  "0x1802 = tile_id y \<longleftrightarrow> y = GREEN"
  "0x1804 = tile_id y \<longleftrightarrow> y = WHITE"
  "0x4000 = tile_id y \<longleftrightarrow> y = PLUM"
  "0x4002 = tile_id y \<longleftrightarrow> y = ORCHID"
  "0x4004 = tile_id y \<longleftrightarrow> y = BAMBOO"
  "0x4006 = tile_id y \<longleftrightarrow> y = CHRYSANTH"
  "0x6000 = tile_id y \<longleftrightarrow> y = SPRING"
  "0x6002 = tile_id y \<longleftrightarrow> y = SUMMER"
  "0x6004 = tile_id y \<longleftrightarrow> y = AUTUMN"
  "0x6006 = tile_id y \<longleftrightarrow> y = WINTER"
  by (cases y; simp)+


lemmas suit_defs = suit_def suit_of_id_def is_char_def is_circle_def is_bamboo_def
  is_honor_def is_general_flower_def numeric_def

lemma numeric_id:
  "numeric t \<Longrightarrow> suit t = Inr s \<Longrightarrow> rank t = Some k \<Longrightarrow> tile_id t = s + k \<and> 1 \<le> k \<and> k \<le> 9"
  by (cases t) (auto simp: suit_defs rank_def)

lemma numeric_suit: "numeric x \<Longrightarrow> suit y = suit x \<Longrightarrow> numeric y"
  by (auto simp: numeric_def is_char_def is_circle_def is_bamboo_def)

lemma numeric_suit_ex: "numeric x \<Longrightarrow> \<exists>s. suit x = Inr s"
  by (auto simp: numeric_def is_char_def is_circle_def is_bamboo_def)

lemma is_run3_ids:
  "is_run3 x y z \<longleftrightarrow>
     numeric x \<and> tile_id x mod 16 \<le> 7
     \<and> tile_id y = Suc (tile_id x) \<and> tile_id z = Suc (Suc (tile_id x))"
proof
  assume r: "is_run3 x y z"
  then obtain k where n: "numeric x" and sy: "suit y = suit x" and sz: "suit z = suit x"
    and k: "rank x = Some k" "rank y = Some (k + 1)" "rank z = Some (k + 2)"
    by (auto simp: is_run3_def)
  obtain s where s: "suit x = Inr s" using numeric_suit_ex [OF n] by blast
  have ny: "numeric y" and nz: "numeric z"
    using numeric_suit [OF n sy] numeric_suit [OF n sz] by simp_all
  have "tile_id x = s + k" "tile_id y = s + (k + 1)" "tile_id z = s + (k + 2)" "k + 2 \<le> 9"
    using numeric_id [OF n s k(1)] numeric_id [OF ny _ k(2)] numeric_id [OF nz _ k(3)] sy sz s
    by simp_all
  moreover have "tile_id x mod 16 = k" using k(1) by (simp add: rank_def split: if_splits)
  ultimately show "numeric x \<and> tile_id x mod 16 \<le> 7
     \<and> tile_id y = Suc (tile_id x) \<and> tile_id z = Suc (Suc (tile_id x))"
    using n by simp
next
  assume "numeric x \<and> tile_id x mod 16 \<le> 7
     \<and> tile_id y = Suc (tile_id x) \<and> tile_id z = Suc (Suc (tile_id x))"
  then show "is_run3 x y z"
    by (cases x) (auto simp: suit_defs rank_def is_run3_def tile_id_conv)
qed

subsection \<open>The free tiles stay sorted\<close>

lemma del_at_filter:
  assumes "sorted (a :: tile list)" "x \<in> set a"
  shows "del_at a (length (filter (\<lambda>y. y < x) a)) = remove1 x a"
  using del_at_index [OF assms] index_sorted [OF assms(1), of x] assms(2) by simp

lemma remove_free_tile_sorted:
  assumes "sorted (free_tiles h)"
  shows "remove_free_tile h t =
     (if t \<in> set (free_tiles h) then Inr (h\<lparr>free_tiles := remove1 t (free_tiles h)\<rparr>)
      else Inl ValueError)"
  using assms by (simp add: remove_free_tile_def Let_def index_sorted del_at_filter)

lemma sorted_add_free_tile:
  "sorted (free_tiles h) \<Longrightarrow> sorted (free_tiles (add_free_tile h t))"
  by (simp add: add_free_tile_def sorted_insort_right)

lemma mset_add_free_tile:
  "mset (free_tiles (add_free_tile h t)) = add_mset t (mset (free_tiles h))"
  by (simp add: add_free_tile_def mset_insort_right)

lemma add_free_tiles_sorted:
  "sorted (free_tiles h) \<Longrightarrow>
     sorted (free_tiles (add_free_tiles h ts))
     \<and> mset (free_tiles (add_free_tiles h ts)) = mset (free_tiles h) + mset ts"
  by (induction ts arbitrary: h) (auto simp: sorted_add_free_tile mset_add_free_tile)

lemma sorted_move_last_tile:
  "sorted (free_tiles h) \<Longrightarrow> sorted (free_tiles (snd (move_last_tile h)))"
  by (auto simp: move_last_tile_def sorted_add_free_tile split: option.splits)

lemma sorted_move_flowers:
  "sorted (free_tiles h) \<Longrightarrow> sorted (free_tiles (move_flowers h))"
  by (auto simp: move_flowers_def Let_def add_flower_def split: option.splits
      intro: sorted_wrt_filter)

lemma sorted_discard:
  assumes "sorted (free_tiles h)" "discard h topt = Inr h'"
  shows "sorted (free_tiles h')"
proof (cases topt)
  case None
  with assms show ?thesis by (auto simp: discard_def)
next
  case (Some tile)
  show ?thesis
  proof (cases "last_tile h = Some tile")
    case True
    with assms Some show ?thesis by (auto simp: discard_def)
  next
    case False
    with assms Some obtain h1 where h1: "remove_free_tile h tile = Inr h1"
      and h': "h' = snd (move_last_tile h1)"
      by (auto simp: discard_def split: sum.splits)
    have "sorted (free_tiles h1)"
      using h1 assms(1) by (auto simp: remove_free_tile_sorted sorted_remove1 split: if_splits)
    then show ?thesis unfolding h' by (rule sorted_move_last_tile)
  qed
qed

lemma sorted_remove_loop:
  "sorted (free_tiles h) \<Longrightarrow> sorted (free_tiles (fst (remove_loop h ts)))"
proof (induction ts arbitrary: h)
  case Nil
  then show ?case by simp
next
  case (Cons t ts)
  show ?case
  proof (cases "t \<in> set (free_tiles h)")
    case True
    have "sorted (free_tiles (h\<lparr>free_tiles := remove1 t (free_tiles h)\<rparr>))"
      using Cons.prems by (simp add: sorted_remove1)
    from Cons.IH [OF this] show ?thesis
      using True Cons.prems by (simp add: Let_def index_sorted del_at_filter)
  next
    case False
    then show ?thesis using Cons.prems by (simp add: Let_def index_sorted)
  qed
qed

lemma sorted_meld:
  "sorted (free_tiles h) \<Longrightarrow> sorted (free_tiles (fst (meld h ts t gt)))"
  using sorted_remove_loop [of h ts]
  by (auto simp: meld_def split: prod.splits option.splits sum.splits)

lemma sorted_kong_from_self:
  assumes "sorted (free_tiles h)"
  shows "sorted (free_tiles (fst (kong_from_self h)))"
proof (cases "last_tile h")
  case None
  then show ?thesis using assms by (simp add: kong_from_self_def)
next
  case (Some lt)
  show ?thesis
  proof (cases "find_pong_group h lt")
    case (Some k)
    then show ?thesis using assms \<open>last_tile h = Some lt\<close>
      by (simp add: kong_from_self_def Let_def)
  next
    case None
    obtain h' r where m: "meld h [lt, lt, lt] lt KONG_CONCEALED = (h', r)"
      by (cases "meld h [lt, lt, lt] lt KONG_CONCEALED") auto
    have "sorted (free_tiles h')"
      using sorted_meld [OF assms, of "[lt, lt, lt]" lt KONG_CONCEALED] m by simp
    then show ?thesis using None \<open>last_tile h = Some lt\<close> m
      by (cases r) (simp_all add: kong_from_self_def)
  qed
qed

lemma contains_sorted:
  "sorted (free_tiles h) \<Longrightarrow> contains h t False True False False \<longleftrightarrow> t \<in> set (free_tiles h)"
  by (simp add: contains_def index_nonneg_iff)

lemma hand_count_sorted:
  "sorted (free_tiles h) \<Longrightarrow> hand_count h t False True False = count_list (free_tiles h) t"
  by (auto simp: hand_count_def Let_def index_nonneg_iff count_run_sorted count_list_0_iff)

lemma can_pong_sorted:
  assumes "sorted (free_tiles h)"
  shows "can_pong h t \<longleftrightarrow> 2 \<le> count_list (free_tiles h) t"
proof (cases "t \<in> set (free_tiles h)")
  case True
  show ?thesis
    using next_equal_sorted [OF assms True, of 1] index_nonneg_iff [OF assms, of t] True
    by (auto simp: can_pong_def Let_def)
next
  case False
  then show ?thesis
    using index_nonneg_iff [OF assms, of t] by (auto simp: can_pong_def Let_def count_list_0_iff)
qed

lemma can_kong_sorted:
  assumes "sorted (free_tiles h)"
  shows "can_kong h t \<longleftrightarrow> 3 \<le> count_list (free_tiles h) t"
proof (cases "t \<in> set (free_tiles h)")
  case True
  show ?thesis
    using next_equal_sorted [OF assms True, of 1] next_equal_sorted [OF assms True, of 2]
      index_nonneg_iff [OF assms, of t] True
    by (auto simp: can_kong_def Let_def)
next
  case False
  then show ?thesis
    using index_nonneg_iff [OF assms, of t] by (auto simp: can_kong_def Let_def count_list_0_iff)
qed

lemma is_run3_runs: "is_run3 x y z \<longleftrightarrow> (x, y, z) \<in> set runs"
  by (cases x) (auto simp: is_run3_ids suit_defs tile_id_conv runs_def)

lemma get_chow_combs_sorted:
  assumes "sorted (free_tiles h)"
  shows "\<exists>combs. get_chow_combs h t = Inr combs \<and> distinct combs
     \<and> (\<forall>a b. (a, b) \<in> set combs
          \<longleftrightarrow> a \<in> set (free_tiles h) \<and> b \<in> set (free_tiles h) \<and> forms_chow a b t)"
  apply (cases t)
  apply (simp_all add: get_chow_combs_def chow_comb_def ALL_lookup_def ALL_tiles_def
       is_honor_def is_general_flower_def suit_def suit_of_id_def
       index_nonneg_iff [OF assms] forms_chow_def is_run3_runs runs_def)
  apply auto
  done

lemma sorted_hand_after_remove:
  "sorted (free_tiles h) \<Longrightarrow> sorted (free_tiles (hand_after h (remove_free_tile h t)))"
  by (simp add: remove_free_tile_sorted hand_after_def sorted_remove1)

lemma mset_hand_after_remove:
  "sorted (free_tiles h) \<Longrightarrow>
     mset (free_tiles (hand_after h (remove_free_tile h t))) = mset (free_tiles h) - {#t#}"
  by (simp add: remove_free_tile_sorted hand_after_def)

lemma sorted_hand_after_discard:
  "sorted (free_tiles h) \<Longrightarrow> sorted (free_tiles (hand_after h (discard h topt)))"
  using sorted_discard [of h topt] by (cases "discard h topt") (simp_all add: hand_after_def)

text \<open>
  C10.  \<open>Hand.free_tiles\<close> is sorted after construction, and every hand operation
  (\<open>add_free_tile\<close>, \<open>add_free_tiles\<close>, \<open>remove_free_tile\<close>, \<open>move_last_tile\<close>,
  \<open>move_flowers\<close>, \<open>discard\<close>, \<open>chow\<close>, \<open>pong\<close>, \<open>kong_from_other\<close>, \<open>kong_from_self\<close>)
  applied to a hand with sorted free tiles leaves them sorted, whether it returns or
  raises.  On a hand with sorted free tiles the binary-search queries agree with the
  multiset of free tiles: \<open>contains\<close> is membership, \<open>count\<close> is the multiplicity,
  \<open>can_pong\<close> and \<open>can_kong\<close> hold exactly for multiplicity at least two and three, and
  \<open>get_chow_combs\<close> returns exactly the pairs of free tiles that form a run with the
  incoming tile.
\<close>

theorem free_tiles_sorted_invariant:
  assumes "sorted (free_tiles h)"
  shows "sorted (free_tiles (Hand_init ts))
     \<and> sorted (free_tiles (add_free_tile h t))
     \<and> mset (free_tiles (add_free_tile h t)) = add_mset t (mset (free_tiles h))
     \<and> sorted (free_tiles (add_free_tiles h us))
     \<and> mset (free_tiles (add_free_tiles h us)) = mset (free_tiles h) + mset us
     \<and> sorted (free_tiles (hand_after h (remove_free_tile h t)))
     \<and> mset (free_tiles (hand_after h (remove_free_tile h t))) = mset (free_tiles h) - {#t#}
     \<and> (remove_free_tile h t = Inl ValueError \<longleftrightarrow> t \<notin># mset (free_tiles h))
     \<and> sorted (free_tiles (snd (move_last_tile h)))
     \<and> sorted (free_tiles (move_flowers h))
     \<and> sorted (free_tiles (hand_after h (discard h topt)))
     \<and> sorted (free_tiles (fst (chow h us t)))
     \<and> sorted (free_tiles (fst (pong h t)))
     \<and> sorted (free_tiles (fst (kong_from_other h t)))
     \<and> sorted (free_tiles (fst (kong_from_self h)))
     \<and> (contains h t False True False False \<longleftrightarrow> t \<in># mset (free_tiles h))
     \<and> hand_count h t False True False = count (mset (free_tiles h)) t
     \<and> (can_pong h t \<longleftrightarrow> 2 \<le> count (mset (free_tiles h)) t)
     \<and> (can_kong h t \<longleftrightarrow> 3 \<le> count (mset (free_tiles h)) t)
     \<and> (\<exists>combs. get_chow_combs h t = Inr combs \<and> distinct combs
          \<and> (\<forall>a b. (a, b) \<in> set combs
                \<longleftrightarrow> a \<in># mset (free_tiles h) \<and> b \<in># mset (free_tiles h)
                    \<and> forms_chow a b t))"
proof -
  have c: "count (mset xs) x = count_list xs x" for xs :: "tile list" and x
    by (induction xs) auto
  have 1: "sorted (free_tiles (Hand_init ts))" by (simp add: Hand_init_def)
  have 2: "remove_free_tile h t = Inl ValueError \<longleftrightarrow> t \<notin># mset (free_tiles h)"
    using assms by (simp add: remove_free_tile_sorted)
  have 3: "\<exists>combs. get_chow_combs h t = Inr combs \<and> distinct combs
          \<and> (\<forall>a b. (a, b) \<in> set combs
                \<longleftrightarrow> a \<in># mset (free_tiles h) \<and> b \<in># mset (free_tiles h)
                    \<and> forms_chow a b t)"
    using get_chow_combs_sorted [OF assms, of t] by simp
  show ?thesis
    using 1 2 3 assms
      sorted_add_free_tile [OF assms, of t] mset_add_free_tile [of h t]
      add_free_tiles_sorted [OF assms, of us]
      sorted_hand_after_remove [OF assms, of t] mset_hand_after_remove [OF assms, of t]
      sorted_move_last_tile [OF assms] sorted_move_flowers [OF assms]
      sorted_hand_after_discard [OF assms, of topt]
      sorted_meld [OF assms, of us t CHOW]
      sorted_meld [OF assms, of "[t, t]" t PONG]
      sorted_meld [OF assms, of "[t, t, t]" t KONG_EXPOSED]
      sorted_kong_from_self [OF assms]
      contains_sorted [OF assms, of t] hand_count_sorted [OF assms, of t]
      can_pong_sorted [OF assms, of t] can_kong_sorted [OF assms, of t]
    unfolding chow_def pong_def kong_from_other_def c
    by (intro conjI) simp_all
qed

lemma H0_free: "free_tiles H0 = [CHAR1, CHAR1, CHAR2, CHAR3]"
  by (simp add: H0_def Hand_init_def less_eq_tile_def)

theorem free_tiles_sorted_invariant_witness:
  "sorted (free_tiles H0)
   \<and> sorted (free_tiles (add_free_tile H0 CHAR2))
   \<and> hand_count H0 CHAR1 False True False = 2
   \<and> can_pong H0 CHAR1 \<and> \<not> can_kong H0 CHAR1
   \<and> contains H0 CHAR3 False True False False"
proof -
  have a: "sorted (free_tiles H0)"
    by (simp add: H0_free less_eq_tile_def)
  show ?thesis
    using a free_tiles_sorted_invariant [OF a, of None CHAR2 "[]" None]
      free_tiles_sorted_invariant [OF a, of None CHAR1 "[]" None]
      free_tiles_sorted_invariant [OF a, of None CHAR3 "[]" None]
    by (simp add: H0_free)
qed

subsection \<open>A lone flower\<close>

lemma flower_not_others:
  "is_general_flower t \<Longrightarrow> \<not> is_char t \<and> \<not> is_circle t \<and> \<not> is_bamboo t \<and> \<not> is_honor t"
  by (auto simp: is_general_flower_def is_char_def is_circle_def is_bamboo_def is_honor_def)

lemma insort_right_Nil: "insort_right [] x = [x]"
  by (simp add: insort_right_def bisect_right_def bisect_right_loop.simps [of "[]"])

lemma remainder_loop_zero_table:
  "remainder_loop (replicate 4 (replicate 10 0)) 0 0 = (4, 0)"
  by (simp add: numeral_eq_Suc)

lemma can_win_lone_flower:
  assumes "free_tiles h = []" "is_general_flower t"
  shows "can_win h (Some t) = Inr False"
proof -
  have "construct_hand_table [t] = Inr (replicate 4 (replicate 10 0))"
    using flower_not_others [OF assms(2)]
    by (simp add: construct_hand_table_def add_to_table_def)
  then show ?thesis
    using assms(1) by (simp add: can_win_def insort_right_Nil remainder_loop_zero_table)
qed

text \<open>
  C9.  For every hand with no free tiles and every candidate tile of the flower or season
  suit, \<open>Hand.can_win\<close> returns \<open>False\<close>, whether the flower is passed as the incoming
  tile or is the hand's pending last tile.
\<close>

theorem lone_flower_never_wins:
  assumes "free_tiles h = []" and "is_general_flower t"
  shows "can_win h (Some t) = Inr False
       \<and> can_win (h\<lparr>last_tile := Some t\<rparr>) None = Inr False"
proof -
  have "can_win (h\<lparr>last_tile := Some t\<rparr>) (Some t) = Inr False"
    by (rule can_win_lone_flower) (use assms in simp_all)
  moreover have "can_win (h\<lparr>last_tile := Some t\<rparr>) None
      = can_win (h\<lparr>last_tile := Some t\<rparr>) (Some t)"
    by (simp add: can_win_def)
  ultimately show ?thesis
    using can_win_lone_flower [OF assms] by simp
qed

theorem lone_flower_never_wins_witness:
  "free_tiles (Hand_init None) = [] \<and> is_general_flower PLUM
   \<and> can_win (Hand_init None) (Some PLUM) = Inr False
   \<and> can_win ((Hand_init None)\<lparr>last_tile := Some PLUM\<rparr>) None = Inr False"
proof -
  have a: "free_tiles (Hand_init None) = []"
    by (simp add: Hand_init_def)
  have b: "is_general_flower PLUM"
    by (simp add: is_general_flower_def suit_def suit_of_id_def)
  show ?thesis
    using a b lone_flower_never_wins [OF a b] by simp
qed

subsection \<open>Scenarios B and C of the arbitration\<close>

text \<open>
  C4.  With the viable decisions \<open>[None, [chow, skip], [kong, skip], [win, skip]]\<close> and the
  default rotation origin, the choices \<open>[None, chow, kong, win]\<close> resolve to exactly
  \<open>[(3, win)]\<close>, and the choices \<open>[None, chow, kong, skip]\<close> resolve to exactly
  \<open>[(2, kong)]\<close>.
\<close>

theorem select_melders_scenarios:
  "select_melders
     [None, Some [''chow'', ''skip''], Some [''kong'', ''skip''], Some [''win'', ''skip'']]
     [None, Some ''chow'', Some ''kong'', Some ''win''] 0
   = Inr (Some [(3, Some ''win'')])
   \<and>
   select_melders
     [None, Some [''chow'', ''skip''], Some [''kong'', ''skip''], Some [''win'', ''skip'']]
     [None, Some ''chow'', Some ''kong'', Some ''skip''] 0
   = Inr (Some [(2, Some ''kong'')])"
  by (simp add: select_melders_def upt_rec viable_has_def not_in_viable_def rot_idx_def)

end
